theory Spec2Isabelle
  imports Main "HOL-Library.AList" "HOL-Library.Stream" "HOL-Library.Char_ord"
    "HOL-Library.List_Lexorder"
begin

section \<open>The Firestore driver of hawiah-firebase\<close>

text \<open>
  A shallow embedding of \<^verbatim>\<open>src/drivers/FirebaseDriver.ts\<close>. The adapter object is a
  record of its private fields. Everything the adapter talks to is gathered in a record
  \<open>world\<close>, passed to every operation and returned by it: the remote Firestore database,
  the system clock and the random number generator. An operation returns its result (or
  the error it throws) together with the world it leaves behind, so that the work done
  before an error stays visible.

  Scope of the model. Field values are scalars (null, booleans, integers, strings).
  Field names and document identifiers are plain strings: dotted field paths and
  identifiers with a slash are not interpreted. The backend answers every request
  (no network, quota or permission failure); it rejects a document reference whose
  identifier is not a non-empty string, and an update of a document that does not exist.
  The order in which the backend lists a collection is the order of the list that
  represents it; no theorem below depends on that order.
\<close>

subsection \<open>Values, records and queries\<close>

datatype jsval = JNull | JBool bool | JNum int | JStr string

text \<open>\<^verbatim>\<open>Data\<close>: an object from field names to values. Object spread with an added
  property is a map update, \<^verbatim>\<open>delete o.k\<close> removes the key.\<close>

type_synonym data = "string \<rightharpoonup> jsval"

text \<open>\<^verbatim>\<open>Query\<close>: an object given by its entries, in the order of
  \<^verbatim>\<open>Object.entries\<close>; \<^verbatim>\<open>queryObj._id\<close> is \<open>map_of queryObj ''_id''\<close> (\<open>None\<close> is the
  value undefined).\<close>

type_synonym query = "(string \<times> jsval) list"

text \<open>Truthiness of a property read, as \<^verbatim>\<open>if (queryObj._id)\<close> tests it.\<close>

fun truthy :: "jsval option \<Rightarrow> bool" where
  "truthy None = False"
| "truthy (Some JNull) = False"
| "truthy (Some (JBool b)) = b"
| "truthy (Some (JNum n)) = (n \<noteq> 0)"
| "truthy (Some (JStr s)) = (s \<noteq> [])"

datatype error = NotConnected | BackendFailure

subsection \<open>The backend: collections of documents\<close>

type_synonym documents = "(string \<times> data) list"

type_synonym database = "string \<Rightarrow> documents"

record world =
  database :: database
  clock :: "int stream"
  random :: "string stream"

text \<open>A document reference: the collection's name and the document's identifier.\<close>

type_synonym docRef = "string \<times> string"

definition doc :: "string \<Rightarrow> jsval option \<Rightarrow> error + docRef" where
  "doc name ident =
     (case ident of
        Some (JStr s) \<Rightarrow> if s = [] then Inl BackendFailure else Inr (name, s)
      | _ \<Rightarrow> Inl BackendFailure)"

definition setDoc :: "docRef \<Rightarrow> data \<Rightarrow> database \<Rightarrow> database" where
  "setDoc r record dbs = dbs(fst r := AList.update (snd r) record (dbs (fst r)))"

definition getDoc :: "docRef \<Rightarrow> database \<Rightarrow> data option" where
  "getDoc r dbs = map_of (dbs (fst r)) (snd r)"

definition updateDoc :: "docRef \<Rightarrow> data \<Rightarrow> database \<Rightarrow> error + database" where
  "updateDoc r upd dbs =
     (case map_of (dbs (fst r)) (snd r) of
        None \<Rightarrow> Inl BackendFailure
      | Some old \<Rightarrow> Inr (dbs(fst r := AList.update (snd r) (old ++ upd) (dbs (fst r)))))"

definition deleteDoc :: "docRef \<Rightarrow> database \<Rightarrow> database" where
  "deleteDoc r dbs = dbs(fst r := AList.delete (snd r) (dbs (fst r)))"

text \<open>An equality filter \<^verbatim>\<open>where(key, '==', value)\<close>, and a filtered read of a
  collection: the documents that satisfy every constraint.\<close>

definition where_eq :: "string \<Rightarrow> jsval \<Rightarrow> data \<Rightarrow> bool" where
  "where_eq key v d \<longleftrightarrow> d key = Some v"

definition getDocs :: "(data \<Rightarrow> bool) list \<Rightarrow> documents \<Rightarrow> data list" where
  "getDocs constraints c = filter (\<lambda>d. list_all (\<lambda>p. p d) constraints) (map snd c)"

subsection \<open>Clock, random numbers and their renderings\<close>

text \<open>\<^verbatim>\<open>Date.now()\<close> and \<^verbatim>\<open>new Date()\<close> read the system clock (milliseconds since
  the epoch); each read takes the next element of \<open>clock\<close>. \<open>random\<close> holds the
  successive values of \<^verbatim>\<open>Math.random().toString(36)\<close>.\<close>

definition Date_now :: "world \<Rightarrow> int \<times> world" where
  "Date_now w = (shd (clock w), w\<lparr>clock := stl (clock w)\<rparr>)"

definition Math_random_toString36 :: "world \<Rightarrow> string \<times> world" where
  "Math_random_toString36 w = (shd (random w), w\<lparr>random := stl (random w)\<rparr>)"

definition digit :: "int \<Rightarrow> char" where
  "digit n = ''0123456789'' ! nat n"

function decimal_digits :: "int \<Rightarrow> string" where
  "decimal_digits n =
     (if n < 10 then [digit n] else decimal_digits (n div 10) @ [digit (n mod 10)])"
  by pat_completeness auto
termination
  by (relation "measure nat") auto

declare decimal_digits.simps [simp del]

text \<open>The template literal \<^verbatim>\<open>${n}\<close> of an integer.\<close>

definition decimal :: "int \<Rightarrow> string" where
  "decimal n = (if n < 0 then CHR ''-'' # decimal_digits (- n) else decimal_digits n)"

definition pad2 :: "int \<Rightarrow> string" where
  "pad2 n = [digit (n div 10 mod 10), digit (n mod 10)]"

definition pad3 :: "int \<Rightarrow> string" where
  "pad3 n = digit (n div 100 mod 10) # pad2 n"

definition pad4 :: "int \<Rightarrow> string" where
  "pad4 n = digit (n div 1000 mod 10) # pad3 n"

definition pad6 :: "int \<Rightarrow> string" where
  "pad6 n = digit (n div 100000 mod 10) # digit (n div 10000 mod 10) # pad4 n"

text \<open>\<^verbatim>\<open>Date.prototype.toISOString\<close> of the instant \<open>t\<close>: the proleptic Gregorian
  date in UTC, \<^verbatim>\<open>YYYY-MM-DDTHH:mm:ss.sssZ\<close>, with a signed six-digit year outside
  0..9999.\<close>

definition toISOString :: "int \<Rightarrow> string" where
  "toISOString t =
     (let days = t div 86400000;
          ms = t mod 86400000;
          z = days + 719468;
          era = z div 146097;
          doe = z mod 146097;
          yoe = (doe - doe div 1460 + doe div 36524 - doe div 146096) div 365;
          doy = doe - (365 * yoe + yoe div 4 - yoe div 100);
          mp = (5 * doy + 2) div 153;
          d = doy - (153 * mp + 2) div 5 + 1;
          m = (if mp < 10 then mp + 3 else mp - 9);
          y = yoe + era * 400 + (if m \<le> 2 then 1 else 0);
          year = (if 0 \<le> y \<and> y \<le> 9999 then pad4 y
                  else (if y < 0 then CHR ''-'' else CHR ''+'') # pad6 \<bar>y\<bar>)
      in year @ ''-'' @ pad2 m @ ''-'' @ pad2 d @ ''T'' @ pad2 (ms div 3600000) @ '':''
           @ pad2 (ms div 60000 mod 60) @ '':'' @ pad2 (ms div 1000 mod 60) @ ''.''
           @ pad3 (ms mod 1000) @ ''Z'')"

text \<open>\<^verbatim>\<open>new Date().toISOString()\<close>.\<close>

definition new_Date_toISOString :: "world \<Rightarrow> string \<times> world" where
  "new_Date_toISOString w = (case Date_now w of (t, w') \<Rightarrow> (toISOString t, w'))"

subsection \<open>The adapter\<close>

type_synonym firebaseOptions = "(string \<times> string) list"

datatype firebaseApp = FirebaseApp firebaseOptions

datatype firestore = Firestore firebaseApp

datatype collectionReference = CollectionReference firestore string

record firebaseDriverOptions =
  opt_firebaseConfig :: firebaseOptions
  opt_collectionName :: string

record firebaseDriver =
  app :: "firebaseApp option"
  db :: "firestore option"
  collectionName :: string
  firebaseConfig :: firebaseOptions
  collectionRef :: "collectionReference option"

definition new_FirebaseDriver :: "firebaseDriverOptions \<Rightarrow> firebaseDriver" where
  "new_FirebaseDriver options =
     \<lparr>app = None, db = None, collectionName = opt_collectionName options,
      firebaseConfig = opt_firebaseConfig options, collectionRef = None\<rparr>"

definition connect :: "firebaseDriver \<Rightarrow> firebaseDriver" where
  "connect a =
     (let a1 = a\<lparr>app := Some (FirebaseApp (firebaseConfig a))\<rparr>;
          a2 = a1\<lparr>db := Some (Firestore (the (app a1)))\<rparr>
      in a2\<lparr>collectionRef := Some (CollectionReference (the (db a2)) (collectionName a2))\<rparr>)"

definition disconnect :: "firebaseDriver \<Rightarrow> firebaseDriver" where
  "disconnect a = a\<lparr>db := None, app := None, collectionRef := None\<rparr>"

definition ensureConnected :: "firebaseDriver \<Rightarrow> error + unit" where
  "ensureConnected a =
     (if db a = None \<or> collectionRef a = None then Inl NotConnected else Inr ())"

definition generateId :: "world \<Rightarrow> string \<times> world" where
  "generateId w =
     (case Date_now w of (now, w1) \<Rightarrow>
        (case Math_random_toString36 w1 of (r, w2) \<Rightarrow>
           (decimal now @ ''_'' @ take 13 (drop 2 r), w2)))"

definition set_op :: "firebaseDriver \<Rightarrow> world \<Rightarrow> data \<Rightarrow> (error + data) \<times> world" where
  "set_op a w d =
     (case ensureConnected a of
        Inl e \<Rightarrow> (Inl e, w)
      | Inr _ \<Rightarrow>
          (case generateId w of (ident, w1) \<Rightarrow>
             (case doc (collectionName a) (Some (JStr ident)) of
                Inl e \<Rightarrow> (Inl e, w1)
              | Inr docRef \<Rightarrow>
                  (case new_Date_toISOString w1 of (created, w2) \<Rightarrow>
                     (case new_Date_toISOString w2 of (updated, w3) \<Rightarrow>
                        (let record = d(''_id'' \<mapsto> JStr ident,
                                        ''_createdAt'' \<mapsto> JStr created,
                                        ''_updatedAt'' \<mapsto> JStr updated)
                         in (Inr record,
                             w3\<lparr>database := setDoc docRef record (database w3)\<rparr>)))))))"

definition get :: "firebaseDriver \<Rightarrow> world \<Rightarrow> query \<Rightarrow> (error + data list) \<times> world" where
  "get a w queryObj =
     (case ensureConnected a of
        Inl e \<Rightarrow> (Inl e, w)
      | Inr _ \<Rightarrow>
          (case collectionRef a of
             None \<Rightarrow> (Inl NotConnected, w)
           | Some (CollectionReference _ name) \<Rightarrow>
               if length queryObj = 0 then (Inr (map snd (database w name)), w)
               else (Inr (getDocs (map (\<lambda>(key, v). where_eq key v) queryObj)
                            (database w name)), w)))"

definition getOne :: "firebaseDriver \<Rightarrow> world \<Rightarrow> query \<Rightarrow> (error + data option) \<times> world" where
  "getOne a w queryObj =
     (case ensureConnected a of
        Inl e \<Rightarrow> (Inl e, w)
      | Inr _ \<Rightarrow>
          if truthy (map_of queryObj ''_id'') then
            (case doc (collectionName a) (map_of queryObj ''_id'') of
               Inl e \<Rightarrow> (Inl e, w)
             | Inr docRef \<Rightarrow> (Inr (getDoc docRef (database w)), w))
          else
            (case get a w queryObj of
               (Inl e, w') \<Rightarrow> (Inl e, w')
             | (Inr results, w') \<Rightarrow>
                 (Inr (if length results > 0 then Some (results ! 0) else None), w')))"

text \<open>The object \<^verbatim>\<open>updateData\<close> that \<^verbatim>\<open>update\<close> builds for one record, from the
  caller's data and the timestamp just read.\<close>

definition updateData :: "data \<Rightarrow> string \<Rightarrow> data" where
  "updateData d stamp = (d(''_updatedAt'' \<mapsto> JStr stamp))(''_id'' := None)"

text \<open>The loop of \<^verbatim>\<open>update\<close> over the records read, with its counter.\<close>

fun update_loop ::
  "firebaseDriver \<Rightarrow> world \<Rightarrow> data \<Rightarrow> data list \<Rightarrow> nat \<Rightarrow> (error + nat) \<times> world" where
  "update_loop a w d [] n = (Inr n, w)"
| "update_loop a w d (record # records) n =
     (case doc (collectionName a) (record ''_id'') of
        Inl e \<Rightarrow> (Inl e, w)
      | Inr docRef \<Rightarrow>
          (case new_Date_toISOString w of (stamp, w1) \<Rightarrow>
             (case updateDoc docRef (updateData d stamp) (database w1) of
                Inl e \<Rightarrow> (Inl e, w1)
              | Inr dbs \<Rightarrow> update_loop a (w1\<lparr>database := dbs\<rparr>) d records (n + 1))))"

definition update :: "firebaseDriver \<Rightarrow> world \<Rightarrow> query \<Rightarrow> data \<Rightarrow> (error + nat) \<times> world" where
  "update a w queryObj d =
     (case ensureConnected a of
        Inl e \<Rightarrow> (Inl e, w)
      | Inr _ \<Rightarrow>
          (case get a w queryObj of
             (Inl e, w') \<Rightarrow> (Inl e, w')
           | (Inr records, w') \<Rightarrow> update_loop a w' d records 0))"

fun delete_loop :: "firebaseDriver \<Rightarrow> world \<Rightarrow> data list \<Rightarrow> nat \<Rightarrow> (error + nat) \<times> world" where
  "delete_loop a w [] n = (Inr n, w)"
| "delete_loop a w (record # records) n =
     (case doc (collectionName a) (record ''_id'') of
        Inl e \<Rightarrow> (Inl e, w)
      | Inr docRef \<Rightarrow>
          delete_loop a (w\<lparr>database := deleteDoc docRef (database w)\<rparr>) records (n + 1))"

definition delete :: "firebaseDriver \<Rightarrow> world \<Rightarrow> query \<Rightarrow> (error + nat) \<times> world" where
  "delete a w queryObj =
     (case ensureConnected a of
        Inl e \<Rightarrow> (Inl e, w)
      | Inr _ \<Rightarrow>
          (case get a w queryObj of
             (Inl e, w') \<Rightarrow> (Inl e, w')
           | (Inr records, w') \<Rightarrow> delete_loop a w' records 0))"

definition exists :: "firebaseDriver \<Rightarrow> world \<Rightarrow> query \<Rightarrow> (error + bool) \<times> world" where
  "exists a w queryObj =
     (case ensureConnected a of
        Inl e \<Rightarrow> (Inl e, w)
      | Inr _ \<Rightarrow>
          (case getOne a w queryObj of
             (Inl e, w') \<Rightarrow> (Inl e, w')
           | (Inr result, w') \<Rightarrow> (Inr (result \<noteq> None), w')))"

definition count :: "firebaseDriver \<Rightarrow> world \<Rightarrow> query \<Rightarrow> (error + nat) \<times> world" where
  "count a w queryObj =
     (case ensureConnected a of
        Inl e \<Rightarrow> (Inl e, w)
      | Inr _ \<Rightarrow>
          (case get a w queryObj of
             (Inl e, w') \<Rightarrow> (Inl e, w')
           | (Inr results, w') \<Rightarrow> (Inr (length results), w')))"

definition clear :: "firebaseDriver \<Rightarrow> world \<Rightarrow> (error + unit) \<times> world" where
  "clear a w =
     (case ensureConnected a of
        Inl e \<Rightarrow> (Inl e, w)
      | Inr _ \<Rightarrow>
          (case delete a w [] of
             (Inl e, w') \<Rightarrow> (Inl e, w')
           | (Inr _, w') \<Rightarrow> (Inr (), w')))"

subsection \<open>Predicates used in the statements\<close>

text \<open>The adapter is connected: the test of \<^verbatim>\<open>ensureConnected\<close> passes.\<close>

definition connected :: "firebaseDriver \<Rightarrow> bool" where
  "connected a \<longleftrightarrow> \<not> (db a = None \<or> collectionRef a = None)"

text \<open>The class invariant of the adapter: a collection reference, when there is one, is
  the reference \<^verbatim>\<open>connect\<close> made from \<^verbatim>\<open>collectionName\<close>. The constructor,
  \<^verbatim>\<open>connect\<close> and \<^verbatim>\<open>disconnect\<close> establish it, and nothing else assigns the
  fields.\<close>

definition collection_bound :: "firebaseDriver \<Rightarrow> bool" where
  "collection_bound a \<longleftrightarrow>
     (case collectionRef a of
        None \<Rightarrow> True
      | Some (CollectionReference _ name) \<Rightarrow> name = collectionName a)"

text \<open>The invariant of a collection written through the adapter: document identifiers
  are distinct and non-empty, and every record carries its identifier in \<^verbatim>\<open>_id\<close>.\<close>

definition store_ok :: "documents \<Rightarrow> bool" where
  "store_ok c \<longleftrightarrow>
     distinct (map fst c) \<and> list_all (\<lambda>(k, d). k \<noteq> [] \<and> d ''_id'' = Some (JStr k)) c"

text \<open>The records of a collection that satisfy every equality of a query.\<close>

definition matching :: "query \<Rightarrow> documents \<Rightarrow> data list" where
  "matching queryObj c = getDocs (map (\<lambda>(key, v). where_eq key v) queryObj) c"

text \<open>The three fields the adapter reserves.\<close>

definition reserved :: "string set" where
  "reserved = {''_id'', ''_createdAt'', ''_updatedAt''}"

subsection \<open>Example inputs\<close>

definition example_driver :: firebaseDriver where
  "example_driver =
     connect (new_FirebaseDriver
       \<lparr>opt_firebaseConfig = [(''projectId'', ''demo'')], opt_collectionName = ''users''\<rparr>)"

definition example_world :: world where
  "example_world =
     \<lparr>database = (\<lambda>_. []), clock = siterate (\<lambda>t. t + 1) 1700000000000,
      random = sconst ''0.k3j9x2m1pq''\<rparr>"

definition example_record1 :: data where
  "example_record1 =
     [''name'' \<mapsto> JStr ''a'', ''_id'' \<mapsto> JStr ''1699999999000_abc'',
      ''_createdAt'' \<mapsto> JStr ''2023-11-14T22:13:19.000Z'',
      ''_updatedAt'' \<mapsto> JStr ''2023-11-14T22:13:19.000Z'']"

definition example_record2 :: data where
  "example_record2 =
     [''name'' \<mapsto> JStr ''b'', ''_id'' \<mapsto> JStr ''1699999999500_xyz'',
      ''_createdAt'' \<mapsto> JStr ''2023-11-14T22:13:19.500Z'',
      ''_updatedAt'' \<mapsto> JStr ''2023-11-14T22:13:19.500Z'']"

definition example_docs :: documents where
  "example_docs =
     [(''1699999999000_abc'', example_record1), (''1699999999500_xyz'', example_record2)]"

definition example_stored :: world where
  "example_stored = example_world\<lparr>database := (\<lambda>_. [])(''users'' := example_docs)\<rparr>"

text \<open>A world in which the clock and the random number generator repeat their values,
  and one in which the clock is set back by a second after three readings.\<close>

definition repeating_world :: world where
  "repeating_world =
     \<lparr>database = (\<lambda>_. []), clock = sconst 1700000000000,
      random = sconst ''0.k3j9x2m1pq''\<rparr>"

definition same_instant_world :: world where
  "same_instant_world =
     \<lparr>database = (\<lambda>_. []), clock = sconst 1700000000123,
      random = sconst ''0.8r2mq0zk5v''\<rparr>"

definition stepping_back_world :: world where
  "stepping_back_world =
     \<lparr>database = (\<lambda>_. []),
      clock = 1700000000000 ## 1700000000000 ## 1700000000000 ## sconst 1699999999000,
      random = sconst ''0.k3j9x2m1pq''\<rparr>"

text \<open>Collections that hold documents the adapter has not written: one whose
  \<^verbatim>\<open>_id\<close> field is not the identifier it is stored under, and one with no
  \<^verbatim>\<open>_id\<close> field.\<close>

definition foreign_world :: world where
  "foreign_world =
     \<lparr>database = (\<lambda>_. [])(''users'' :=
        [(''a'', [''_id'' \<mapsto> JStr ''zz'']), (''b'', [''_id'' \<mapsto> JStr ''b''])]),
      clock = sconst 1700000000000, random = sconst ''0.k3j9x2m1pq''\<rparr>"

definition unkeyed_world :: world where
  "unkeyed_world =
     \<lparr>database = (\<lambda>_. [])(''users'' := [(''a'', [''name'' \<mapsto> JStr ''x''])]),
      clock = sconst 1700000000000, random = sconst ''0.k3j9x2m1pq''\<rparr>"

section \<open>Basic facts\<close>

lemma connected_ensure: "connected a \<Longrightarrow> ensureConnected a = Inr ()"
  by (simp add: connected_def ensureConnected_def)

lemma not_connected_ensure: "\<not> connected a \<Longrightarrow> ensureConnected a = Inl NotConnected"
  by (simp add: connected_def ensureConnected_def)

lemma connected_connect: "connected (connect a)"
  by (simp add: connected_def connect_def Let_def)

lemma collection_bound_connect: "collection_bound (connect a)"
  by (simp add: collection_bound_def connect_def Let_def)

lemma collection_bound_disconnect: "collection_bound (disconnect a)"
  by (simp add: collection_bound_def disconnect_def)

lemma collection_bound_new: "collection_bound (new_FirebaseDriver opts)"
  by (simp add: collection_bound_def new_FirebaseDriver_def)

lemma collectionName_connect: "collectionName (connect a) = collectionName a"
  by (simp add: connect_def Let_def)

lemma generateId_eq:
  "generateId w =
     (decimal (shd (clock w)) @ ''_'' @ take 13 (drop 2 (shd (random w))),
      w\<lparr>clock := stl (clock w), random := stl (random w)\<rparr>)"
  by (simp add: generateId_def Date_now_def Math_random_toString36_def)

lemma new_Date_eq:
  "new_Date_toISOString w = (toISOString (shd (clock w)), w\<lparr>clock := stl (clock w)\<rparr>)"
  by (simp add: new_Date_toISOString_def Date_now_def)

lemma doc_string: "s \<noteq> [] \<Longrightarrow> doc name (Some (JStr s)) = Inr (name, s)"
  by (simp add: doc_def)

lemma set_op_connected:
  assumes "connected a"
  shows "set_op a w d =
     (let ident = decimal (shd (clock w)) @ ''_'' @ take 13 (drop 2 (shd (random w)));
          record = d(''_id'' \<mapsto> JStr ident,
                     ''_createdAt'' \<mapsto> JStr (toISOString (clock w !! 1)),
                     ''_updatedAt'' \<mapsto> JStr (toISOString (clock w !! 2)))
      in (Inr record,
          \<lparr>database = setDoc (collectionName a, ident) record (database w),
           clock = sdrop 3 (clock w), random = stl (random w)\<rparr>))"
  using assms
  by (simp add: set_op_def connected_ensure generateId_eq new_Date_eq doc_def Let_def
      numeral_3_eq_3 numeral_2_eq_2)

lemma get_connected:
  assumes "connected a" "collection_bound a"
  shows "get a w q = (Inr (matching q (database w (collectionName a))), w)"
  using assms
  by (auto simp: get_def connected_ensure matching_def getDocs_def connected_def
      collection_bound_def split: option.splits collectionReference.splits)

lemma getDoc_setDoc:
  "getDoc r (setDoc r' record dbs) = (if r = r' then Some record else getDoc r dbs)"
  by (cases r; cases r') (auto simp: getDoc_def setDoc_def update_conv')

lemma example_connected: "connected example_driver"
  by (simp add: example_driver_def connected_connect)

lemma example_bound: "collection_bound example_driver"
  by (simp add: example_driver_def collection_bound_connect)

lemma example_name: "collectionName example_driver = ''users''"
  by (simp add: example_driver_def collectionName_connect new_FirebaseDriver_def)

lemma example_clock:
  "clock example_world !! 0 = 1700000000000"
  "clock example_world !! 1 = 1700000000001"
  "clock example_world !! 2 = 1700000000002"
  "shd (clock example_world) = 1700000000000"
  "shd (stl (clock example_world)) = 1700000000001"
  "shd (stl (stl (clock example_world))) = 1700000000002"
  "shd (random example_world) = ''0.k3j9x2m1pq''"
  by (simp_all add: example_world_def numeral_2_eq_2)

lemma example_renderings:
  "decimal 1700000000000 = ''1700000000000''"
  "toISOString 1700000000000 = ''2023-11-14T22:13:20.000Z''"
  "toISOString 1699999999000 = ''2023-11-14T22:13:19.000Z''"
  "toISOString 1699999999500 = ''2023-11-14T22:13:19.500Z''"
  "toISOString 1700000000001 = ''2023-11-14T22:13:20.001Z''"
  "toISOString 1700000000002 = ''2023-11-14T22:13:20.002Z''"
  by code_simp+

lemma example_generateId: "fst (generateId example_world) = ''1700000000000_k3j9x2m1pq''"
  by (simp add: generateId_eq example_clock example_renderings)

lemma example_stored_facts:
  "database example_stored (collectionName example_driver) = example_docs"
  "database example_stored ''users'' = example_docs"
  "clock example_stored = clock example_world"
  "random example_stored = random example_world"
  by (simp_all add: example_stored_def example_name)

lemma example_store_ok: "store_ok example_docs"
  by (simp add: store_ok_def example_docs_def example_record1_def example_record2_def)

lemma example_records_differ: "example_record1 \<noteq> example_record2"
proof
  assume "example_record1 = example_record2"
  then have "example_record1 ''name'' = example_record2 ''name''" by simp
  then show False by (simp add: example_record1_def example_record2_def)
qed

lemma example_matching:
  "matching [(''name'', JStr ''b'')] example_docs = [example_record2]"
  "matching [(''name'', JStr ''zzz'')] example_docs = []"
  "matching [] example_docs = [example_record1, example_record2]"
  by (simp_all add: matching_def getDocs_def where_eq_def example_docs_def
      example_record1_def example_record2_def)

lemma example_getDoc:
  "getDoc (''users'', ''1699999999000_abc'') (database example_stored) = Some example_record1"
  "getDoc (''users'', ''1699999999500_xyz'') (database example_stored) = Some example_record2"
  by (simp_all add: getDoc_def example_stored_def example_docs_def)

section \<open>Reading, updating and deleting under the invariants\<close>

lemma getOne_by_id:
  assumes "connected a" "map_of q ''_id'' = Some (JStr i)" "i \<noteq> []"
  shows "getOne a w q = (Inr (getDoc (collectionName a, i) (database w)), w)"
  using assms by (simp add: getOne_def connected_ensure doc_def)

lemma getOne_by_query:
  assumes "connected a" "collection_bound a" "\<not> truthy (map_of q ''_id'')"
  shows "getOne a w q =
     (Inr (case matching q (database w (collectionName a)) of [] \<Rightarrow> None | r # _ \<Rightarrow> Some r), w)"
  using assms
  by (simp add: getOne_def connected_ensure get_connected split: list.splits)

lemma store_ok_lookup:
  assumes "store_ok c" "(k, d) \<in> set c"
  shows "k \<noteq> []" "d ''_id'' = Some (JStr k)" "map_of c k = Some d"
  using assms by (auto simp: store_ok_def list_all_iff)

lemma store_ok_no_empty_key: "store_ok c \<Longrightarrow> map_of c [] = None"
  by (auto simp: store_ok_def list_all_iff map_of_eq_None_iff)

lemma matching_iff:
  "r \<in> set (matching q c) \<longleftrightarrow> r \<in> snd ` set c \<and> (\<forall>(key, v) \<in> set q. r key = Some v)"
  by (auto simp: matching_def getDocs_def list_all_iff where_eq_def)

lemma matching_empty_id:
  assumes "store_ok c" "map_of q ''_id'' = Some (JStr [])"
  shows "matching q c = []"
proof -
  from assms(2) have m: "(''_id'', JStr []) \<in> set q" by (rule map_of_SomeD)
  have "r \<notin> set (matching q c)" for r
  proof
    assume "r \<in> set (matching q c)"
    then obtain k where "(k, r) \<in> set c" and "r ''_id'' = Some (JStr [])"
      using m by (auto simp: matching_iff)
    with store_ok_lookup [OF assms(1)] show False by fastforce
  qed
  then show ?thesis by (cases "matching q c") auto
qed

lemma updateData_fields:
  "(old ++ updateData d stamp) ''_id'' = old ''_id''"
  "(old ++ updateData d stamp) ''_updatedAt'' = Some (JStr stamp)"
  "d f = Some v \<Longrightarrow> f \<noteq> ''_id'' \<Longrightarrow> f \<noteq> ''_updatedAt'' \<Longrightarrow>
     (old ++ updateData d stamp) f = Some v"
  "d f = None \<Longrightarrow> f \<noteq> ''_updatedAt'' \<Longrightarrow> (old ++ updateData d stamp) f = old f"
  by (simp_all add: updateData_def map_add_def)

lemma updateData_idem: "(old ++ updateData d s) ++ updateData d s' = old ++ updateData d s'"
  by (rule ext) (simp add: map_add_def updateData_def split: option.splits)

lemma update_loop_effect:
  assumes "\<forall>r\<in>set rs. \<exists>k. r ''_id'' = Some (JStr k) \<and> k \<noteq> []
             \<and> k \<in> fst ` set (database w (collectionName a))"
  shows "\<exists>w'. update_loop a w d rs n = (Inr (n + length rs), w')
     \<and> clock w' = sdrop (length rs) (clock w) \<and> random w' = random w
     \<and> (\<forall>m. m \<noteq> collectionName a \<longrightarrow> database w' m = database w m)
     \<and> map fst (database w' (collectionName a)) = map fst (database w (collectionName a))
     \<and> (\<forall>k. (\<forall>r\<in>set rs. r ''_id'' \<noteq> Some (JStr k)) \<longrightarrow>
            map_of (database w' (collectionName a)) k = map_of (database w (collectionName a)) k)
     \<and> (\<forall>k old. map_of (database w (collectionName a)) k = Some old
                  \<and> (\<exists>r\<in>set rs. r ''_id'' = Some (JStr k)) \<longrightarrow>
            (\<exists>i<length rs. map_of (database w' (collectionName a)) k
                  = Some (old ++ updateData d (toISOString (clock w !! i)))))"
  using assms
proof (induction rs arbitrary: w n)
  case Nil
  show ?case by simp
next
  case (Cons r rs)
  let ?name = "collectionName a"
  let ?c = "database w ?name"
  from Cons.prems obtain k1 where k1: "r ''_id'' = Some (JStr k1)" "k1 \<noteq> []" "k1 \<in> fst ` set ?c"
    by auto
  then obtain old1 where old1: "map_of ?c k1 = Some old1"
    by (cases "map_of ?c k1") (auto simp: map_of_eq_None_iff)
  define u1 where "u1 = updateData d (toISOString (shd (clock w)))"
  define w2 where "w2 = w\<lparr>clock := stl (clock w),
      database := (database w)(?name := AList.update k1 (old1 ++ u1) ?c)\<rparr>"
  have step: "update_loop a w d (r # rs) n = update_loop a w2 d rs (n + 1)"
    using k1 old1 by (simp add: doc_def new_Date_eq updateDoc_def u1_def w2_def)
  have keys: "map fst (database w2 ?name) = map fst ?c"
    using k1(3) by (simp add: w2_def update_keys)
  have lookup2: "map_of (database w2 ?name) k = (if k = k1 then Some (old1 ++ u1) else map_of ?c k)" for k
    by (simp add: w2_def update_conv')
  have other2: "database w2 m = database w m" if "m \<noteq> ?name" for m
    using that by (simp add: w2_def)
  have clock2: "clock w2 = stl (clock w)" and random2: "random w2 = random w"
    by (simp_all add: w2_def)
  have pre: "\<forall>r\<in>set rs. \<exists>k. r ''_id'' = Some (JStr k) \<and> k \<noteq> []
             \<and> k \<in> fst ` set (database w2 ?name)"
  proof
    fix r' assume "r' \<in> set rs"
    with Cons.prems obtain k where "r' ''_id'' = Some (JStr k)" "k \<noteq> []" "k \<in> fst ` set ?c"
      by auto
    moreover have "fst ` set (database w2 ?name) = fst ` set ?c"
      using keys by (metis set_map)
    ultimately show "\<exists>k. r' ''_id'' = Some (JStr k) \<and> k \<noteq> [] \<and> k \<in> fst ` set (database w2 ?name)"
      by auto
  qed
  from Cons.IH [OF pre, of "n + 1"] obtain w' where
    res: "update_loop a w2 d rs (n + 1) = (Inr (n + 1 + length rs), w')" and
    clk: "clock w' = sdrop (length rs) (clock w2)" and
    rnd: "random w' = random w2" and
    oth: "\<And>m. m \<noteq> ?name \<Longrightarrow> database w' m = database w2 m" and
    kys: "map fst (database w' ?name) = map fst (database w2 ?name)" and
    same: "\<And>k. (\<forall>r\<in>set rs. r ''_id'' \<noteq> Some (JStr k)) \<Longrightarrow>
            map_of (database w' ?name) k = map_of (database w2 ?name) k" and
    upd: "\<And>k old. map_of (database w2 ?name) k = Some old \<Longrightarrow>
            (\<exists>r\<in>set rs. r ''_id'' = Some (JStr k)) \<Longrightarrow>
            (\<exists>i<length rs. map_of (database w' ?name) k
                  = Some (old ++ updateData d (toISOString (clock w2 !! i))))"
    by blast
  have c1: "update_loop a w d (r # rs) n = (Inr (n + length (r # rs)), w')"
    using step res by simp
  have c2: "clock w' = sdrop (length (r # rs)) (clock w)"
    using clk clock2 by simp
  have c3: "random w' = random w"
    using rnd random2 by simp
  have c4: "\<forall>m. m \<noteq> ?name \<longrightarrow> database w' m = database w m"
    using oth other2 by simp
  have c5: "map fst (database w' ?name) = map fst ?c"
    using kys keys by simp
  have c6: "\<forall>k. (\<forall>r\<in>set (r # rs). r ''_id'' \<noteq> Some (JStr k)) \<longrightarrow>
            map_of (database w' ?name) k = map_of ?c k"
  proof (intro allI impI)
    fix k assume a: "\<forall>r\<in>set (r # rs). r ''_id'' \<noteq> Some (JStr k)"
    then have "k \<noteq> k1" using k1(1) by auto
    moreover from a have "map_of (database w' ?name) k = map_of (database w2 ?name) k"
      by (intro same) simp
    ultimately show "map_of (database w' ?name) k = map_of ?c k"
      by (simp add: lookup2)
  qed
  have c7: "\<forall>k old. map_of ?c k = Some old \<and> (\<exists>r\<in>set (r # rs). r ''_id'' = Some (JStr k)) \<longrightarrow>
            (\<exists>i<length (r # rs). map_of (database w' ?name) k
                  = Some (old ++ updateData d (toISOString (clock w !! i))))"
  proof (intro allI impI, elim conjE)
    fix k old
    assume o: "map_of ?c k = Some old" and ex: "\<exists>r\<in>set (r # rs). r ''_id'' = Some (JStr k)"
    show "\<exists>i<length (r # rs). map_of (database w' ?name) k
                  = Some (old ++ updateData d (toISOString (clock w !! i)))"
    proof (cases "\<exists>r'\<in>set rs. r' ''_id'' = Some (JStr k)")
      case True
      define old2 where "old2 = (if k = k1 then old1 ++ u1 else old)"
      have "map_of (database w2 ?name) k = Some old2"
        using o by (simp add: lookup2 old2_def)
      from upd [OF this True] clock2 obtain i where i: "i < length rs"
        "map_of (database w' ?name) k = Some (old2 ++ updateData d (toISOString (clock w !! Suc i)))"
        by auto
      have "old2 ++ updateData d s = old ++ updateData d s" for s
        using o old1 by (auto simp: old2_def u1_def updateData_idem)
      with i have "map_of (database w' ?name) k
          = Some (old ++ updateData d (toISOString (clock w !! Suc i)))" by simp
      with i(1) show ?thesis by (intro exI [of _ "Suc i"]) simp
    next
      case False
      with ex have kk: "k = k1" using k1(1) by auto
      from False have "map_of (database w' ?name) k = map_of (database w2 ?name) k"
        by (intro same) simp
      with kk o old1 have "map_of (database w' ?name) k
          = Some (old ++ updateData d (toISOString (clock w !! 0)))"
        by (simp add: lookup2 u1_def)
      then show ?thesis by (intro exI [of _ 0]) simp
    qed
  qed
  from c1 c2 c3 c4 c5 c6 c7 show ?case by blast
qed

lemma matching_ids:
  assumes "store_ok c" "r \<in> set (matching q c)"
  shows "\<exists>k. r ''_id'' = Some (JStr k) \<and> k \<noteq> [] \<and> k \<in> fst ` set c \<and> map_of c k = Some r"
proof -
  from assms(2) obtain k where "(k, r) \<in> set c" by (auto simp: matching_iff)
  with store_ok_lookup [OF assms(1) this] show ?thesis by force
qed

lemma stored_id:
  assumes "store_ok c" "map_of c k = Some old"
  shows "old ''_id'' = Some (JStr k)"
  using assms store_ok_lookup(2) map_of_SomeD by fastforce

lemma update_connected:
  assumes "connected a" "collection_bound a" "store_ok (database w (collectionName a))"
  shows "\<exists>w'. update a w q d = (Inr (length (matching q (database w (collectionName a)))), w')
     \<and> clock w' = sdrop (length (matching q (database w (collectionName a)))) (clock w)
     \<and> random w' = random w
     \<and> (\<forall>m. m \<noteq> collectionName a \<longrightarrow> database w' m = database w m)
     \<and> map fst (database w' (collectionName a)) = map fst (database w (collectionName a))
     \<and> (\<forall>k old. map_of (database w (collectionName a)) k = Some old
                  \<and> old \<notin> set (matching q (database w (collectionName a))) \<longrightarrow>
            map_of (database w' (collectionName a)) k = Some old)
     \<and> (\<forall>k old. map_of (database w (collectionName a)) k = Some old
                  \<and> old \<in> set (matching q (database w (collectionName a))) \<longrightarrow>
            (\<exists>i<length (matching q (database w (collectionName a))).
               map_of (database w' (collectionName a)) k
                  = Some (old ++ updateData d (toISOString (clock w !! i)))))"
proof -
  let ?c = "database w (collectionName a)"
  let ?rs = "matching q ?c"
  have u: "update a w q d = update_loop a w d ?rs 0"
    using assms by (simp add: update_def connected_ensure get_connected)
  have pre: "\<forall>r\<in>set ?rs. \<exists>k. r ''_id'' = Some (JStr k) \<and> k \<noteq> [] \<and> k \<in> fst ` set ?c"
    using matching_ids [OF assms(3)] by blast
  from update_loop_effect [OF pre, of d 0] obtain w' where
    res: "update_loop a w d ?rs 0 = (Inr (0 + length ?rs), w')" and
    clk: "clock w' = sdrop (length ?rs) (clock w)" and
    rnd: "random w' = random w" and
    oth: "\<forall>m. m \<noteq> collectionName a \<longrightarrow> database w' m = database w m" and
    kys: "map fst (database w' (collectionName a)) = map fst ?c" and
    same: "\<And>k. (\<forall>r\<in>set ?rs. r ''_id'' \<noteq> Some (JStr k)) \<Longrightarrow>
            map_of (database w' (collectionName a)) k = map_of ?c k" and
    upd: "\<And>k old. map_of ?c k = Some old \<and> (\<exists>r\<in>set ?rs. r ''_id'' = Some (JStr k)) \<Longrightarrow>
            (\<exists>i<length ?rs. map_of (database w' (collectionName a)) k
                  = Some (old ++ updateData d (toISOString (clock w !! i))))"
    by blast
  have c6: "map_of (database w' (collectionName a)) k = Some old"
    if "map_of ?c k = Some old \<and> old \<notin> set ?rs" for k old
  proof -
    have "r ''_id'' \<noteq> Some (JStr k)" if "r \<in> set ?rs" for r
    proof
      assume "r ''_id'' = Some (JStr k)"
      with matching_ids [OF assms(3) that] have "map_of ?c k = Some r" by auto
      with \<open>map_of ?c k = Some old \<and> old \<notin> set ?rs\<close> that show False by simp
    qed
    with same [of k] that show ?thesis by simp
  qed
  have c7: "\<exists>i<length ?rs. map_of (database w' (collectionName a)) k
                  = Some (old ++ updateData d (toISOString (clock w !! i)))"
    if "map_of ?c k = Some old \<and> old \<in> set ?rs" for k old
  proof -
    from that stored_id [OF assms(3)] have "old ''_id'' = Some (JStr k)" by blast
    with that upd [of k old] show ?thesis by blast
  qed
  from u res clk rnd oth kys c6 c7 show ?thesis by auto
qed

lemma delete_loop_effect:
  assumes "\<forall>r\<in>set rs. \<exists>k. r ''_id'' = Some (JStr k) \<and> k \<noteq> []"
  shows "\<exists>w'. delete_loop a w rs n = (Inr (n + length rs), w')
     \<and> clock w' = clock w \<and> random w' = random w
     \<and> (\<forall>m. m \<noteq> collectionName a \<longrightarrow> database w' m = database w m)
     \<and> database w' (collectionName a)
         = filter (\<lambda>p. \<forall>r\<in>set rs. r ''_id'' \<noteq> Some (JStr (fst p))) (database w (collectionName a))"
  using assms
proof (induction rs arbitrary: w n)
  case Nil
  show ?case by simp
next
  case (Cons r rs)
  let ?name = "collectionName a"
  from Cons.prems obtain k1 where k1: "r ''_id'' = Some (JStr k1)" "k1 \<noteq> []" by auto
  define w2 where "w2 = w\<lparr>database := deleteDoc (?name, k1) (database w)\<rparr>"
  have step: "delete_loop a w (r # rs) n = delete_loop a w2 rs (n + 1)"
    using k1 by (simp add: doc_def w2_def)
  have db2: "database w2 ?name = filter (\<lambda>p. fst p \<noteq> k1) (database w ?name)"
    by (auto simp: w2_def deleteDoc_def AList.delete_eq intro: filter_cong)
  have other2: "database w2 m = database w m" if "m \<noteq> ?name" for m
    using that by (simp add: w2_def deleteDoc_def)
  from Cons.prems have pre: "\<forall>r\<in>set rs. \<exists>k. r ''_id'' = Some (JStr k) \<and> k \<noteq> []" by simp
  from Cons.IH [OF pre, of w2 "n + 1"] obtain w' where
    res: "delete_loop a w2 rs (n + 1) = (Inr (n + 1 + length rs), w')" and
    clk: "clock w' = clock w2" and rnd: "random w' = random w2" and
    oth: "\<forall>m. m \<noteq> ?name \<longrightarrow> database w' m = database w2 m" and
    dbs: "database w' ?name
         = filter (\<lambda>p. \<forall>r\<in>set rs. r ''_id'' \<noteq> Some (JStr (fst p))) (database w2 ?name)"
    by blast
  have "database w' ?name
      = filter (\<lambda>p. \<forall>r\<in>set (r # rs). r ''_id'' \<noteq> Some (JStr (fst p))) (database w ?name)"
    using k1(1) by (auto simp: dbs db2 intro: filter_cong)
  moreover have "clock w' = clock w" "random w' = random w"
    using clk rnd by (simp_all add: w2_def)
  moreover have "\<forall>m. m \<noteq> ?name \<longrightarrow> database w' m = database w m"
    using oth other2 by simp
  moreover have "delete_loop a w (r # rs) n = (Inr (n + length (r # rs)), w')"
    using step res by simp
  ultimately show ?case by blast
qed

lemma delete_connected:
  assumes "connected a" "collection_bound a" "store_ok (database w (collectionName a))"
  shows "\<exists>w'. delete a w q = (Inr (length (matching q (database w (collectionName a)))), w')
     \<and> clock w' = clock w \<and> random w' = random w
     \<and> (\<forall>m. m \<noteq> collectionName a \<longrightarrow> database w' m = database w m)
     \<and> database w' (collectionName a)
         = filter (\<lambda>p. snd p \<notin> set (matching q (database w (collectionName a))))
             (database w (collectionName a))"
proof -
  let ?c = "database w (collectionName a)"
  let ?rs = "matching q ?c"
  have u: "delete a w q = delete_loop a w ?rs 0"
    using assms by (simp add: delete_def connected_ensure get_connected)
  have pre: "\<forall>r\<in>set ?rs. \<exists>k. r ''_id'' = Some (JStr k) \<and> k \<noteq> []"
    using matching_ids [OF assms(3)] by blast
  have f: "filter (\<lambda>p. \<forall>r\<in>set ?rs. r ''_id'' \<noteq> Some (JStr (fst p))) ?c
         = filter (\<lambda>p. snd p \<notin> set ?rs) ?c"
  proof (rule filter_cong [OF refl])
    fix p assume p: "p \<in> set ?c"
    then have pp: "(fst p, snd p) \<in> set ?c" by simp
    note l = store_ok_lookup [OF assms(3) pp]
    show "(\<forall>r\<in>set ?rs. r ''_id'' \<noteq> Some (JStr (fst p))) = (snd p \<notin> set ?rs)"
    proof
      assume "\<forall>r\<in>set ?rs. r ''_id'' \<noteq> Some (JStr (fst p))"
      with l(2) show "snd p \<notin> set ?rs" by auto
    next
      assume n: "snd p \<notin> set ?rs"
      show "\<forall>r\<in>set ?rs. r ''_id'' \<noteq> Some (JStr (fst p))"
      proof
        fix r assume r: "r \<in> set ?rs"
        show "r ''_id'' \<noteq> Some (JStr (fst p))"
        proof
          assume "r ''_id'' = Some (JStr (fst p))"
          with matching_ids [OF assms(3) r] have "map_of ?c (fst p) = Some r" by auto
          with l(3) n r show False by simp
        qed
      qed
    qed
  qed
  from delete_loop_effect [OF pre, of a w 0] u f show ?thesis by auto
qed

subsection \<open>The collection invariant is kept\<close>

lemma store_ok_empty: "store_ok []"
  by (simp add: store_ok_def)

lemma store_ok_update:
  assumes "store_ok c" "k \<noteq> []" "v ''_id'' = Some (JStr k)"
  shows "store_ok (AList.update k v c)"
proof -
  have "list_all P (AList.update k v c)" if "list_all P c" "P (k, v)" for P
    using that by (induction c) auto
  with assms show ?thesis
    by (simp add: store_ok_def distinct_update)
qed

lemma store_ok_filter: "store_ok c \<Longrightarrow> store_ok (filter P c)"
  by (simp add: store_ok_def distinct_map_filter list_all_iff)

lemma set_op_store_ok:
  assumes "connected a" "store_ok (database w (collectionName a))"
  shows "store_ok (database (snd (set_op a w d)) (collectionName a))"
  using assms
  by (simp add: set_op_connected Let_def setDoc_def store_ok_update)

lemma update_store_ok:
  assumes "connected a" "collection_bound a" "store_ok (database w (collectionName a))"
  shows "store_ok (database (snd (update a w q d)) (collectionName a))"
proof -
  let ?c = "database w (collectionName a)"
  let ?rs = "matching q ?c"
  from update_connected [OF assms, of q d] obtain w' where
    u: "update a w q d = (Inr (length ?rs), w')" and
    kys: "map fst (database w' (collectionName a)) = map fst ?c" and
    keep: "\<forall>k old. map_of ?c k = Some old \<and> old \<notin> set ?rs \<longrightarrow>
            map_of (database w' (collectionName a)) k = Some old" and
    upd: "\<forall>k old. map_of ?c k = Some old \<and> old \<in> set ?rs \<longrightarrow>
            (\<exists>i<length ?rs. map_of (database w' (collectionName a)) k
                  = Some (old ++ updateData d (toISOString (clock w !! i))))"
    by (elim exE conjE)
  let ?c' = "database w' (collectionName a)"
  from assms(3) kys have dist: "distinct (map fst ?c')"
    by (simp add: store_ok_def)
  have "k \<noteq> [] \<and> new ''_id'' = Some (JStr k)" if "(k, new) \<in> set ?c'" for k new
  proof -
    from that dist have n: "map_of ?c' k = Some new" by simp
    from that have "k \<in> set (map fst ?c')" by force
    with kys have "k \<in> fst ` set ?c" by simp
    then obtain old where o: "(k, old) \<in> set ?c" by auto
    note l = store_ok_lookup [OF assms(3) o]
    show ?thesis
    proof (cases "old \<in> set ?rs")
      case True
      with upd l(3) n obtain i where
        "new = old ++ updateData d (toISOString (clock w !! i))" by fastforce
      with l show ?thesis by (simp add: updateData_fields)
    next
      case False
      with keep l(3) n have "new = old" by fastforce
      with l show ?thesis by simp
    qed
  qed
  with dist have "store_ok ?c'"
    by (auto simp: store_ok_def list_all_iff)
  with u show ?thesis by simp
qed

lemma delete_store_ok:
  assumes "connected a" "collection_bound a" "store_ok (database w (collectionName a))"
  shows "store_ok (database (snd (delete a w q)) (collectionName a))"
proof -
  from delete_connected [OF assms, of q] obtain w' where
    "delete a w q = (Inr (length (matching q (database w (collectionName a)))), w')"
    "database w' (collectionName a)
         = filter (\<lambda>p. snd p \<notin> set (matching q (database w (collectionName a))))
             (database w (collectionName a))"
    by (elim exE conjE)
  with assms(3) show ?thesis by (simp add: store_ok_filter)
qed

text \<open>In a collection that satisfies the invariant no two records share an \<^verbatim>\<open>_id\<close>.\<close>

lemma store_ok_ids_distinct:
  assumes "store_ok c"
  shows "distinct (map (\<lambda>p. snd p ''_id'') c)"
proof -
  from assms have "map (\<lambda>p. snd p ''_id'') c = map (\<lambda>p. Some (JStr (fst p))) c"
    by (auto simp: store_ok_def list_all_iff)
  also have "\<dots> = map (\<lambda>k. Some (JStr k)) (map fst c)" by simp
  finally show ?thesis
    using assms by (simp add: store_ok_def distinct_map inj_on_def)
qed

lemma stepping_back_set:
  "set_op example_driver stepping_back_world [''name'' \<mapsto> JStr ''a''] =
     (Inr [''name'' \<mapsto> JStr ''a'', ''_id'' \<mapsto> JStr ''1700000000000_k3j9x2m1pq'',
           ''_createdAt'' \<mapsto> JStr ''2023-11-14T22:13:20.000Z'',
           ''_updatedAt'' \<mapsto> JStr ''2023-11-14T22:13:20.000Z''],
      \<lparr>database = (\<lambda>_. [])(''users'' :=
          [(''1700000000000_k3j9x2m1pq'',
            [''name'' \<mapsto> JStr ''a'', ''_id'' \<mapsto> JStr ''1700000000000_k3j9x2m1pq'',
             ''_createdAt'' \<mapsto> JStr ''2023-11-14T22:13:20.000Z'',
             ''_updatedAt'' \<mapsto> JStr ''2023-11-14T22:13:20.000Z''])]),
       clock = sconst 1699999999000, random = sconst ''0.k3j9x2m1pq''\<rparr>)"
  by (simp add: set_op_connected example_connected example_name stepping_back_world_def
      Let_def setDoc_def example_renderings numeral_3_eq_3 numeral_2_eq_2)

lemma stepping_back_update:
  "update example_driver
     (snd (set_op example_driver stepping_back_world [''name'' \<mapsto> JStr ''a'']))
     [(''_id'', JStr ''1700000000000_k3j9x2m1pq'')] [''name'' \<mapsto> JStr ''b''] =
     (Inr 1,
      \<lparr>database = (\<lambda>_. [])(''users'' :=
          [(''1700000000000_k3j9x2m1pq'',
            [''name'' \<mapsto> JStr ''a'', ''_id'' \<mapsto> JStr ''1700000000000_k3j9x2m1pq'',
             ''_createdAt'' \<mapsto> JStr ''2023-11-14T22:13:20.000Z'',
             ''_updatedAt'' \<mapsto> JStr ''2023-11-14T22:13:20.000Z'']
            ++ updateData [''name'' \<mapsto> JStr ''b''] ''2023-11-14T22:13:19.000Z'')]),
       clock = sconst 1699999999000, random = sconst ''0.k3j9x2m1pq''\<rparr>)"
  by (simp add: stepping_back_set update_def connected_ensure get_connected example_connected
      example_bound example_name matching_def getDocs_def where_eq_def doc_def new_Date_eq
      updateDoc_def example_renderings)

lemma stepping_back_record:
  "[''name'' \<mapsto> JStr ''a'', ''_id'' \<mapsto> JStr ''1700000000000_k3j9x2m1pq'',
    ''_createdAt'' \<mapsto> JStr ''2023-11-14T22:13:20.000Z'',
    ''_updatedAt'' \<mapsto> JStr ''2023-11-14T22:13:20.000Z'']
   ++ updateData [''name'' \<mapsto> JStr ''b''] ''2023-11-14T22:13:19.000Z''
   = [''name'' \<mapsto> JStr ''b'', ''_id'' \<mapsto> JStr ''1700000000000_k3j9x2m1pq'',
      ''_createdAt'' \<mapsto> JStr ''2023-11-14T22:13:20.000Z'',
      ''_updatedAt'' \<mapsto> JStr ''2023-11-14T22:13:19.000Z'']"
  by (rule ext) (simp add: updateData_def map_add_def)

section \<open>Generated identifiers\<close>

text \<open>Two generated identifiers are equal exactly when the clock reading and the
  random suffix they are made of are equal.\<close>

lemma digit_inj:
  assumes "0 \<le> a" "a < 10" "0 \<le> b" "b < 10" "digit a = digit b"
  shows "a = b"
proof -
  have d: "distinct ''0123456789''" by simp
  have "nat a < length ''0123456789''" "nat b < length ''0123456789''"
    using assms by simp_all
  with d assms(5) have "nat a = nat b"
    unfolding digit_def by (simp only: nth_eq_iff_index_eq)
  with assms show ?thesis by simp
qed

lemma digit_mem: "0 \<le> a \<Longrightarrow> a < 10 \<Longrightarrow> digit a \<in> set ''0123456789''"
  unfolding digit_def by (rule nth_mem) simp

lemma decimal_digits_nonempty: "decimal_digits n \<noteq> []"
  by (subst decimal_digits.simps) simp

lemma decimal_digits_chars:
  "0 \<le> n \<Longrightarrow> set (decimal_digits n) \<subseteq> set ''0123456789''"
proof (induction n rule: decimal_digits.induct)
  case (1 n)
  show ?case
  proof (cases "n < 10")
    case True
    with "1.prems" digit_mem [of n] show ?thesis
      by (subst decimal_digits.simps) simp
  next
    case False
    with "1.prems" have "0 \<le> n div 10" by simp
    with "1.IH" False have "set (decimal_digits (n div 10)) \<subseteq> set ''0123456789''" by simp
    moreover have "digit (n mod 10) \<in> set ''0123456789''"
      by (rule digit_mem) simp_all
    ultimately show ?thesis
      using False by (subst decimal_digits.simps) simp
  qed
qed

lemma decimal_digits_inj:
  "0 \<le> n \<Longrightarrow> 0 \<le> m \<Longrightarrow> decimal_digits n = decimal_digits m \<Longrightarrow> n = m"
proof (induction n arbitrary: m rule: decimal_digits.induct)
  case (1 n)
  show ?case
  proof (cases "n < 10")
    case n: True
    show ?thesis
    proof (cases "m < 10")
      case True
      with n "1.prems" have "digit n = digit m"
        by (simp add: decimal_digits.simps [of n] decimal_digits.simps [of m])
      with n True "1.prems" show ?thesis by (intro digit_inj) simp_all
    next
      case False
      with n "1.prems"(3) have "[digit n] = decimal_digits (m div 10) @ [digit (m mod 10)]"
        by (simp add: decimal_digits.simps [of n] decimal_digits.simps [of m])
      then have "decimal_digits (m div 10) = []" by simp
      with decimal_digits_nonempty [of "m div 10"] show ?thesis by simp
    qed
  next
    case n: False
    show ?thesis
    proof (cases "m < 10")
      case True
      with n "1.prems"(3) have "decimal_digits (n div 10) @ [digit (n mod 10)] = [digit m]"
        by (simp add: decimal_digits.simps [of n] decimal_digits.simps [of m])
      then have "decimal_digits (n div 10) = []" by simp
      with decimal_digits_nonempty [of "n div 10"] show ?thesis by simp
    next
      case False
      with n "1.prems"(3) have e: "decimal_digits (n div 10) = decimal_digits (m div 10)"
        "digit (n mod 10) = digit (m mod 10)"
        by (simp_all add: decimal_digits.simps [of n] decimal_digits.simps [of m])
      from "1.prems" have p: "0 \<le> n div 10" "0 \<le> m div 10" by simp_all
      have d: "n div 10 = m div 10"
        by (rule "1.IH" [OF n p e(1)])
      from e(2) have r: "n mod 10 = m mod 10"
        by (intro digit_inj) simp_all
      have "n = 10 * (n div 10) + n mod 10" by simp
      also have "\<dots> = 10 * (m div 10) + m mod 10" by (simp only: d r)
      also have "\<dots> = m" by simp
      finally show ?thesis .
    qed
  qed
qed

lemma decimal_chars: "CHR ''_'' \<notin> set (decimal n)"
proof (cases "n < 0")
  case True
  then have "set (decimal_digits (- n)) \<subseteq> set ''0123456789''"
    by (intro decimal_digits_chars) simp
  with True show ?thesis by (auto simp: decimal_def)
next
  case False
  then have "set (decimal_digits n) \<subseteq> set ''0123456789''"
    by (intro decimal_digits_chars) simp
  with False show ?thesis by (auto simp: decimal_def)
qed

lemma decimal_inj: "decimal n = decimal m \<Longrightarrow> n = m"
proof -
  assume e: "decimal n = decimal m"
  have minus: "hd (decimal_digits k) \<noteq> CHR ''-''" if "0 \<le> k" for k
  proof -
    from that have "set (decimal_digits k) \<subseteq> set ''0123456789''" by (rule decimal_digits_chars)
    moreover have "hd (decimal_digits k) \<in> set (decimal_digits k)"
      by (simp add: decimal_digits_nonempty)
    ultimately show ?thesis by auto
  qed
  consider "n < 0" "m < 0" | "n < 0" "0 \<le> m" | "0 \<le> n" "m < 0" | "0 \<le> n" "0 \<le> m"
    by linarith
  then show ?thesis
  proof cases
    case 1
    with e have "decimal_digits (- n) = decimal_digits (- m)" by (simp add: decimal_def)
    with 1 have "- n = - m" by (intro decimal_digits_inj) simp_all
    then show ?thesis by simp
  next
    case 2
    with e have "CHR ''-'' # decimal_digits (- n) = decimal_digits m" by (simp add: decimal_def)
    then have "hd (decimal_digits m) = CHR ''-''" by (metis list.sel(1))
    with minus [OF 2(2)] show ?thesis by simp
  next
    case 3
    with e have "decimal_digits n = CHR ''-'' # decimal_digits (- m)" by (simp add: decimal_def)
    then have "hd (decimal_digits n) = CHR ''-''" by (metis list.sel(1))
    with minus [OF 3(1)] show ?thesis by simp
  next
    case 4
    with e have "decimal_digits n = decimal_digits m" by (simp add: decimal_def)
    with 4 show ?thesis by (intro decimal_digits_inj)
  qed
qed

lemma split_at_first:
  assumes "c \<notin> set xs" "c \<notin> set xs'" "xs @ c # ys = xs' @ c # ys'"
  shows "xs = xs' \<and> ys = ys'"
proof -
  have "takeWhile (\<lambda>x. x \<noteq> c) (zs @ c # rest) = zs" if "c \<notin> set zs" for zs rest
    using that by (induction zs) auto
  from this [OF assms(1), of ys] this [OF assms(2), of ys'] assms(3) have "xs = xs'" by simp
  with assms(3) show ?thesis by simp
qed

lemma generated_ids_equal_iff:
  "fst (generateId w) = fst (generateId w') \<longleftrightarrow>
     shd (clock w) = shd (clock w')
     \<and> take 13 (drop 2 (shd (random w))) = take 13 (drop 2 (shd (random w')))"
proof -
  have "decimal t @ CHR ''_'' # s = decimal t' @ CHR ''_'' # s' \<longleftrightarrow> t = t' \<and> s = s'" for t t' s s'
  proof
    assume "decimal t @ CHR ''_'' # s = decimal t' @ CHR ''_'' # s'"
    with split_at_first [OF decimal_chars decimal_chars] have "decimal t = decimal t'" "s = s'"
      by blast+
    with decimal_inj show "t = t' \<and> s = s'" by blast
  qed simp
  then show ?thesis
    by (simp add: generateId_eq)
qed

lemma same_instant_rendering:
  "decimal 1700000000123 = ''1700000000123''"
  "toISOString 1700000000123 = ''2023-11-14T22:13:20.123Z''"
  by code_simp+

lemma same_instant_set:
  "set_op example_driver same_instant_world [''name'' \<mapsto> JStr ''a''] =
     (Inr [''name'' \<mapsto> JStr ''a'', ''_id'' \<mapsto> JStr ''1700000000123_8r2mq0zk5v'',
           ''_createdAt'' \<mapsto> JStr ''2023-11-14T22:13:20.123Z'',
           ''_updatedAt'' \<mapsto> JStr ''2023-11-14T22:13:20.123Z''],
      \<lparr>database = (\<lambda>_. [])(''users'' :=
          [(''1700000000123_8r2mq0zk5v'',
            [''name'' \<mapsto> JStr ''a'', ''_id'' \<mapsto> JStr ''1700000000123_8r2mq0zk5v'',
             ''_createdAt'' \<mapsto> JStr ''2023-11-14T22:13:20.123Z'',
             ''_updatedAt'' \<mapsto> JStr ''2023-11-14T22:13:20.123Z''])]),
       clock = sconst 1700000000123, random = sconst ''0.8r2mq0zk5v''\<rparr>)"
  by (simp add: set_op_connected example_connected example_name same_instant_world_def
      Let_def setDoc_def same_instant_rendering numeral_3_eq_3 numeral_2_eq_2)

section \<open>What set and clear do on the adapter's own collections\<close>

text \<open>
  What \<^verbatim>\<open>set(data)\<close> does on a connected adapter: the identifier is the decimal
  clock reading, an underscore and up to 13 characters of the random number's base-36
  rendering after its first two; \<^verbatim>\<open>_createdAt\<close> and \<^verbatim>\<open>_updatedAt\<close> are the
  next two clock readings; the record returned is the caller's data with these three
  fields; exactly that record is stored under the identifier, and no other document
  changes.
\<close>

theorem set_persists_merged_record:
  assumes "connected a"
  shows "let ident = decimal (shd (clock w)) @ ''_'' @ take 13 (drop 2 (shd (random w)));
             record = d(''_id'' \<mapsto> JStr ident,
                        ''_createdAt'' \<mapsto> JStr (toISOString (clock w !! 1)),
                        ''_updatedAt'' \<mapsto> JStr (toISOString (clock w !! 2)))
         in fst (set_op a w d) = Inr record
          \<and> getDoc (collectionName a, ident) (database (snd (set_op a w d))) = Some record
          \<and> (\<forall>r. r \<noteq> (collectionName a, ident) \<longrightarrow>
                 getDoc r (database (snd (set_op a w d))) = getDoc r (database w))
          \<and> (\<forall>k v. d k = Some v \<and> k \<notin> reserved \<longrightarrow> record k = Some v)"
  by (simp add: set_op_connected [OF assms] Let_def getDoc_setDoc reserved_def)

theorem set_persists_merged_record_witness:
  "connected example_driver
   \<and> fst (set_op example_driver example_world [''name'' \<mapsto> JStr ''a''])
       = Inr [''name'' \<mapsto> JStr ''a'', ''_id'' \<mapsto> JStr ''1700000000000_k3j9x2m1pq'',
              ''_createdAt'' \<mapsto> JStr ''2023-11-14T22:13:20.001Z'',
              ''_updatedAt'' \<mapsto> JStr ''2023-11-14T22:13:20.002Z'']
   \<and> getDoc (''users'', ''1700000000000_k3j9x2m1pq'')
         (database (snd (set_op example_driver example_world [''name'' \<mapsto> JStr ''a''])))
       = Some [''name'' \<mapsto> JStr ''a'', ''_id'' \<mapsto> JStr ''1700000000000_k3j9x2m1pq'',
              ''_createdAt'' \<mapsto> JStr ''2023-11-14T22:13:20.001Z'',
              ''_updatedAt'' \<mapsto> JStr ''2023-11-14T22:13:20.002Z'']"
  using set_persists_merged_record [OF example_connected, of example_world "[''name'' \<mapsto> JStr ''a'']"]
  by (simp add: example_connected example_clock example_renderings example_name Let_def)

text \<open>
  \<^verbatim>\<open>clear()\<close> is \<^verbatim>\<open>delete({})\<close> with the count dropped. On a connected adapter over
  a collection in which every record is stored under its own \<^verbatim>\<open>_id\<close>, it removes
  every record: afterwards the collection is empty, \<^verbatim>\<open>get({})\<close> lists nothing and
  \<^verbatim>\<open>count({})\<close> returns 0.
\<close>

theorem clear_empties_collection:
  assumes "connected a" "collection_bound a" "store_ok (database w (collectionName a))"
  shows "clear a w = (case delete a w [] of (Inl e, w') \<Rightarrow> (Inl e, w') | (Inr n, w') \<Rightarrow> (Inr (), w'))
       \<and> (\<exists>w'. clear a w = (Inr (), w')
               \<and> delete a w [] = (Inr (length (database w (collectionName a))), w')
               \<and> database w' (collectionName a) = []
               \<and> get a w' [] = (Inr [], w')
               \<and> count a w' [] = (Inr 0, w'))"
proof -
  let ?c = "database w (collectionName a)"
  have all: "matching [] ?c = map snd ?c"
    by (simp add: matching_def getDocs_def)
  from delete_connected [OF assms, of "[]"] obtain w' where
    d: "delete a w [] = (Inr (length (matching [] ?c)), w')" and
    e: "database w' (collectionName a) = filter (\<lambda>p. snd p \<notin> set (matching [] ?c)) ?c"
    by (elim exE conjE)
  from e have empty: "database w' (collectionName a) = []"
    by (simp add: all filter_empty_conv)
  have cl: "clear a w = (case delete a w [] of (Inl e, w') \<Rightarrow> (Inl e, w') | (Inr n, w') \<Rightarrow> (Inr (), w'))"
    using assms(1) by (simp add: clear_def connected_ensure split: prod.splits sum.splits)
  have g: "get a w' [] = (Inr [], w')"
    using assms(1,2) empty by (simp add: get_connected matching_def getDocs_def)
  have c: "count a w' [] = (Inr 0, w')"
    using assms(1) g by (simp add: count_def connected_ensure)
  from cl d empty g c show ?thesis by (simp add: all)
qed

theorem clear_empties_collection_witness:
  "connected example_driver \<and> collection_bound example_driver
   \<and> store_ok (database example_stored (collectionName example_driver))
   \<and> fst (count example_driver example_stored []) = Inr 2
   \<and> fst (clear example_driver example_stored) = Inr ()
   \<and> fst (delete example_driver example_stored []) = Inr 2
   \<and> fst (count example_driver (snd (clear example_driver example_stored)) []) = Inr 0"
proof -
  have ok: "store_ok (database example_stored (collectionName example_driver))"
    by (simp add: example_stored_facts example_store_ok)
  have c: "fst (count example_driver example_stored []) = Inr 2"
    by (simp add: count_def connected_ensure get_connected example_connected example_bound
        example_stored_facts example_matching)
  from clear_empties_collection [OF example_connected example_bound ok]
  obtain w' where "clear example_driver example_stored = (Inr (), w')"
    "delete example_driver example_stored []
       = (Inr (length (database example_stored (collectionName example_driver))), w')"
    "count example_driver w' [] = (Inr 0, w')"
    by (elim exE conjE)
  with ok c show ?thesis
    by (simp add: example_connected example_bound example_stored_facts example_docs_def)
qed

section \<open>The claims\<close>

text \<open>
  C1. Every data operation (set, get, getOne, update, delete, exists, count, clear) of an
  adapter whose database handle or collection reference is null throws the
  ``not connected'' error at once, leaving the world as it was. This is the state of a
  new adapter and of an adapter after \<^verbatim>\<open>disconnect\<close>; data operations do not assign the
  adapter's fields, so it lasts until \<^verbatim>\<open>connect\<close>, after which the check passes.
\<close>

theorem not_connected_fails:
  assumes "db a = None \<or> collectionRef a = None"
  shows "set_op a w d = (Inl NotConnected, w)
       \<and> get a w q = (Inl NotConnected, w)
       \<and> getOne a w q = (Inl NotConnected, w)
       \<and> update a w q d = (Inl NotConnected, w)
       \<and> delete a w q = (Inl NotConnected, w)
       \<and> exists a w q = (Inl NotConnected, w)
       \<and> count a w q = (Inl NotConnected, w)
       \<and> clear a w = (Inl NotConnected, w)
       \<and> ensureConnected (new_FirebaseDriver opts) = Inl NotConnected
       \<and> ensureConnected (disconnect a') = Inl NotConnected
       \<and> ensureConnected (connect a') = Inr ()"
proof -
  from assms have e: "ensureConnected a = Inl NotConnected"
    by (simp add: ensureConnected_def)
  have "ensureConnected (connect a') = Inr ()"
    by (simp add: ensureConnected_def connect_def Let_def)
  with e show ?thesis
    by (simp add: set_op_def get_def getOne_def update_def delete_def exists_def count_def
        clear_def ensureConnected_def new_FirebaseDriver_def disconnect_def)
qed

theorem not_connected_fails_witness:
  "(db (disconnect example_driver) = None \<or> collectionRef (disconnect example_driver) = None)
   \<and> set_op (disconnect example_driver) example_world [''name'' \<mapsto> JStr ''a'']
       = (Inl NotConnected, example_world)
   \<and> clear (disconnect example_driver) example_world = (Inl NotConnected, example_world)
   \<and> fst (set_op (connect (disconnect example_driver)) example_world [''name'' \<mapsto> JStr ''a''])
       \<noteq> Inl NotConnected"
proof -
  have h: "db (disconnect example_driver) = None \<or> collectionRef (disconnect example_driver) = None"
    by (simp add: disconnect_def)
  have "fst (set_op (connect (disconnect example_driver)) example_world [''name'' \<mapsto> JStr ''a''])
       \<noteq> Inl NotConnected"
    by (simp add: set_op_connected connected_connect Let_def)
  with h not_connected_fails [OF h, of example_world "[''name'' \<mapsto> JStr ''a'']"]
  show ?thesis by simp
qed

text \<open>
  C2. \<^verbatim>\<open>set(data)\<close> is to generate a fresh identifier, stamp the record, merge the
  reserved fields with the caller's, store the record under the identifier and return
  it. The code stamps, merges, stores and returns as said (theorem
  \<open>set_persists_merged_record\<close>), but the identifier need not be fresh: when a second
  call reads the clock value and the random number of the first, it generates the
  identifier a record is already stored under, and that record is replaced.
\<close>

theorem set_identifier_not_fresh:
  "getDoc (''users'', ''1700000000123_8r2mq0zk5v'')
     (database (snd (set_op example_driver same_instant_world [''name'' \<mapsto> JStr ''a''])))
     = Some [''name'' \<mapsto> JStr ''a'', ''_id'' \<mapsto> JStr ''1700000000123_8r2mq0zk5v'',
             ''_createdAt'' \<mapsto> JStr ''2023-11-14T22:13:20.123Z'',
             ''_updatedAt'' \<mapsto> JStr ''2023-11-14T22:13:20.123Z'']
   \<and> fst (generateId (snd (set_op example_driver same_instant_world [''name'' \<mapsto> JStr ''a'']))) =
     ''1700000000123_8r2mq0zk5v''
   \<and> fst (set_op example_driver
          (snd (set_op example_driver same_instant_world [''name'' \<mapsto> JStr ''a'']))
          [''name'' \<mapsto> JStr ''b'']) =
     Inr [''name'' \<mapsto> JStr ''b'', ''_id'' \<mapsto> JStr ''1700000000123_8r2mq0zk5v'',
          ''_createdAt'' \<mapsto> JStr ''2023-11-14T22:13:20.123Z'',
          ''_updatedAt'' \<mapsto> JStr ''2023-11-14T22:13:20.123Z'']
   \<and> getDoc (''users'', ''1700000000123_8r2mq0zk5v'')
       (database (snd (set_op example_driver
          (snd (set_op example_driver same_instant_world [''name'' \<mapsto> JStr ''a'']))
          [''name'' \<mapsto> JStr ''b''])))
     = Some [''name'' \<mapsto> JStr ''b'', ''_id'' \<mapsto> JStr ''1700000000123_8r2mq0zk5v'',
             ''_createdAt'' \<mapsto> JStr ''2023-11-14T22:13:20.123Z'',
             ''_updatedAt'' \<mapsto> JStr ''2023-11-14T22:13:20.123Z'']
   \<and> fst (count example_driver (snd (set_op example_driver
          (snd (set_op example_driver same_instant_world [''name'' \<mapsto> JStr ''a'']))
          [''name'' \<mapsto> JStr ''b''])) []) = Inr 1"
  unfolding same_instant_set snd_conv
  by (simp add: set_op_connected example_connected example_bound example_name Let_def
      setDoc_def getDoc_def generateId_eq same_instant_rendering count_def connected_ensure
      get_connected matching_def getDocs_def numeral_3_eq_3 numeral_2_eq_2)

text \<open>
  C3. On a connected adapter over a collection it has written, \<^verbatim>\<open>update(q, d)\<close> returns
  the number of records that \<^verbatim>\<open>get(q)\<close> lists before the call (what \<^verbatim>\<open>count(q)\<close>
  returns), replaces each of them by its merge with \<^verbatim>\<open>d\<close> and with \<^verbatim>\<open>_updatedAt\<close> set
  to a clock reading taken during the call, and leaves every other record as it was. In
  the merge \<^verbatim>\<open>_id\<close> keeps its stored value whatever \<^verbatim>\<open>d\<close> says, the other fields of
  \<^verbatim>\<open>d\<close> replace the stored ones and the fields \<^verbatim>\<open>d\<close> does not name stay. With no
  matching record the call returns 0, it is no error, and nothing changes.
\<close>

theorem update_merges_and_counts:
  assumes "connected a" "collection_bound a" "store_ok (database w (collectionName a))"
  shows "\<exists>records w'.
      get a w q = (Inr records, w)
    \<and> count a w q = (Inr (length records), w)
    \<and> update a w q d = (Inr (length records), w')
    \<and> (\<forall>k old. getDoc (collectionName a, k) (database w) = Some old \<and> old \<in> set records \<longrightarrow>
         (\<exists>i<length records.
            getDoc (collectionName a, k) (database w')
              = Some (old ++ updateData d (toISOString (clock w !! i)))))
    \<and> (\<forall>k old. getDoc (collectionName a, k) (database w) = Some old \<and> old \<notin> set records \<longrightarrow>
         getDoc (collectionName a, k) (database w') = Some old)
    \<and> (\<forall>old stamp.
           (old ++ updateData d stamp) ''_id'' = old ''_id''
         \<and> (old ++ updateData d stamp) ''_updatedAt'' = Some (JStr stamp)
         \<and> (\<forall>f v. d f = Some v \<and> f \<noteq> ''_id'' \<and> f \<noteq> ''_updatedAt'' \<longrightarrow>
                (old ++ updateData d stamp) f = Some v)
         \<and> (\<forall>f. d f = None \<and> f \<noteq> ''_updatedAt'' \<longrightarrow> (old ++ updateData d stamp) f = old f))
    \<and> (records = [] \<longrightarrow> update a w q d = (Inr 0, w))"
proof -
  let ?rs = "matching q (database w (collectionName a))"
  from update_connected [OF assms, of q d] obtain w' where
    u: "update a w q d = (Inr (length ?rs), w')" and
    keep: "\<forall>k old. map_of (database w (collectionName a)) k = Some old \<and> old \<notin> set ?rs \<longrightarrow>
            map_of (database w' (collectionName a)) k = Some old" and
    upd: "\<forall>k old. map_of (database w (collectionName a)) k = Some old \<and> old \<in> set ?rs \<longrightarrow>
            (\<exists>i<length ?rs. map_of (database w' (collectionName a)) k
                  = Some (old ++ updateData d (toISOString (clock w !! i))))"
    by blast
  have g: "get a w q = (Inr ?rs, w)"
    using assms by (simp add: get_connected)
  have c: "count a w q = (Inr (length ?rs), w)"
    using assms by (simp add: count_def connected_ensure get_connected)
  have z: "?rs = [] \<longrightarrow> update a w q d = (Inr 0, w)"
    using assms by (simp add: update_def connected_ensure get_connected)
  have m: "\<forall>old stamp.
           (old ++ updateData d stamp) ''_id'' = old ''_id''
         \<and> (old ++ updateData d stamp) ''_updatedAt'' = Some (JStr stamp)
         \<and> (\<forall>f v. d f = Some v \<and> f \<noteq> ''_id'' \<and> f \<noteq> ''_updatedAt'' \<longrightarrow>
                (old ++ updateData d stamp) f = Some v)
         \<and> (\<forall>f. d f = None \<and> f \<noteq> ''_updatedAt'' \<longrightarrow> (old ++ updateData d stamp) f = old f)"
    by (simp add: updateData_fields)
  from g c u keep upd z m show ?thesis
    unfolding getDoc_def fst_conv snd_conv by blast
qed

theorem update_merges_and_counts_witness:
  "connected example_driver \<and> collection_bound example_driver
   \<and> store_ok (database example_stored (collectionName example_driver))
   \<and> fst (update example_driver example_stored [(''name'', JStr ''b'')]
            [''name'' \<mapsto> JStr ''c'', ''_id'' \<mapsto> JStr ''other'']) = Inr 1
   \<and> getDoc (''users'', ''1699999999000_abc'')
        (database (snd (update example_driver example_stored [(''name'', JStr ''b'')]
            [''name'' \<mapsto> JStr ''c'', ''_id'' \<mapsto> JStr ''other''])))
       = Some example_record1
   \<and> getDoc (''users'', ''1699999999500_xyz'')
        (database (snd (update example_driver example_stored [(''name'', JStr ''b'')]
            [''name'' \<mapsto> JStr ''c'', ''_id'' \<mapsto> JStr ''other''])))
       = Some (example_record2 ++ updateData [''name'' \<mapsto> JStr ''c'', ''_id'' \<mapsto> JStr ''other'']
                 ''2023-11-14T22:13:20.000Z'')
   \<and> update example_driver example_stored [(''name'', JStr ''zzz'')] [''name'' \<mapsto> JStr ''c'']
       = (Inr 0, example_stored)"
proof -
  let ?d = "[''name'' \<mapsto> JStr ''c'', ''_id'' \<mapsto> JStr ''other'']"
  have ok: "store_ok (database example_stored (collectionName example_driver))"
    by (simp add: example_stored_facts example_store_ok)
  from update_merges_and_counts [OF example_connected example_bound ok,
      of "[(''name'', JStr ''b'')]" ?d]
  obtain records w' where
    g: "get example_driver example_stored [(''name'', JStr ''b'')] = (Inr records, example_stored)" and
    u: "update example_driver example_stored [(''name'', JStr ''b'')] ?d = (Inr (length records), w')" and
    upd: "\<forall>k old. getDoc (collectionName example_driver, k) (database example_stored) = Some old
            \<and> old \<in> set records \<longrightarrow>
         (\<exists>i<length records.
            getDoc (collectionName example_driver, k) (database w')
              = Some (old ++ updateData ?d (toISOString (clock example_stored !! i))))" and
    keep: "\<forall>k old. getDoc (collectionName example_driver, k) (database example_stored) = Some old
            \<and> old \<notin> set records \<longrightarrow>
         getDoc (collectionName example_driver, k) (database w') = Some old"
    by (elim exE conjE) (rule that)
  from g have r: "records = [example_record2]"
    by (simp add: get_connected example_connected example_bound example_stored_facts
        example_matching)
  from keep r have k1: "getDoc (''users'', ''1699999999000_abc'') (database w') = Some example_record1"
    by (simp add: example_name example_getDoc example_records_differ)
  from upd r have k2: "getDoc (''users'', ''1699999999500_xyz'') (database w')
       = Some (example_record2 ++ updateData ?d ''2023-11-14T22:13:20.000Z'')"
    by (simp add: example_name example_getDoc example_stored_facts example_clock
        example_renderings)
  from update_merges_and_counts [OF example_connected example_bound ok,
      of "[(''name'', JStr ''zzz'')]" "[''name'' \<mapsto> JStr ''c'']"]
  have z: "update example_driver example_stored [(''name'', JStr ''zzz'')] [''name'' \<mapsto> JStr ''c'']
       = (Inr 0, example_stored)"
    by (auto simp: get_connected example_connected example_bound example_stored_facts
        example_matching)
  from ok u r k1 k2 z show ?thesis
    by (simp add: example_connected example_bound)
qed

text \<open>
  C4. On a connected adapter: when the query gives \<^verbatim>\<open>_id\<close> an identifier (a
  string), \<^verbatim>\<open>getOne\<close> returns the record stored under that identifier, or null when
  there is none, and every query with that \<^verbatim>\<open>_id\<close> gets the same answer, so the
  other fields are not consulted; when the query has no \<^verbatim>\<open>_id\<close>, \<^verbatim>\<open>getOne\<close>
  returns the first record \<^verbatim>\<open>get\<close> lists for the query, or null when it lists none.
  (For the empty string, which the test \<^verbatim>\<open>if (queryObj._id)\<close> sends to the second
  path, the answer is still that of the lookup, null, in a collection written through
  the adapter: this is the one case that needs the invariant of the collection.)
\<close>

theorem getOne_lookup_or_first:
  assumes "connected a" "collection_bound a"
    and "i = [] \<Longrightarrow> store_ok (database w (collectionName a))"
  shows "(map_of q ''_id'' = Some (JStr i) \<longrightarrow>
            getOne a w q = (Inr (getDoc (collectionName a, i) (database w)), w)
          \<and> (\<forall>q'. map_of q' ''_id'' = Some (JStr i) \<longrightarrow> getOne a w q' = getOne a w q))
       \<and> (map_of q ''_id'' = None \<longrightarrow>
            (\<exists>results. get a w q = (Inr results, w)
               \<and> getOne a w q = (Inr (case results of [] \<Rightarrow> None | r # _ \<Rightarrow> Some r), w)))"
proof -
  have byid: "getOne a w p = (Inr (getDoc (collectionName a, i) (database w)), w)"
    if p: "map_of p ''_id'' = Some (JStr i)" for p
  proof (cases "i = []")
    case False
    with assms(1) p show ?thesis by (rule getOne_by_id)
  next
    case True
    from assms(3) [OF True] have ok: "store_ok (database w (collectionName a))" .
    from True p have "\<not> truthy (map_of p ''_id'')" by simp
    with assms(1,2) have "getOne a w p =
      (Inr (case matching p (database w (collectionName a)) of [] \<Rightarrow> None | r # _ \<Rightarrow> Some r), w)"
      by (simp add: getOne_by_query)
    moreover have "matching p (database w (collectionName a)) = []"
      using ok p True by (simp add: matching_empty_id)
    moreover have "getDoc (collectionName a, i) (database w) = None"
      using ok True by (simp add: getDoc_def store_ok_no_empty_key)
    ultimately show ?thesis by simp
  qed
  have "\<exists>results. get a w q = (Inr results, w)
          \<and> getOne a w q = (Inr (case results of [] \<Rightarrow> None | r # _ \<Rightarrow> Some r), w)"
    if "map_of q ''_id'' = None"
    using that assms(1,2) by (simp add: get_connected getOne_by_query)
  with byid show ?thesis by simp
qed

theorem getOne_lookup_or_first_witness:
  "connected example_driver \<and> collection_bound example_driver
   \<and> store_ok (database example_stored (collectionName example_driver))
   \<and> getOne example_driver example_stored
        [(''_id'', JStr ''1699999999500_xyz''), (''name'', JStr ''zzz'')]
       = (Inr (Some example_record2), example_stored)
   \<and> getOne example_driver example_stored [(''_id'', JStr ''1699999999999_nnn'')]
       = (Inr None, example_stored)
   \<and> getOne example_driver example_stored [(''_id'', JStr '''')] = (Inr None, example_stored)
   \<and> getOne example_driver example_stored [(''name'', JStr ''b'')]
       = (Inr (Some example_record2), example_stored)
   \<and> getOne example_driver example_stored [(''name'', JStr ''zzz'')]
       = (Inr None, example_stored)"
proof -
  have ok: "store_ok (database example_stored (collectionName example_driver))"
    by (simp add: example_stored_facts example_store_ok)
  note t = getOne_lookup_or_first [OF example_connected example_bound ok]
  have 1: "getOne example_driver example_stored
        [(''_id'', JStr ''1699999999500_xyz''), (''name'', JStr ''zzz'')]
       = (Inr (Some example_record2), example_stored)"
    using t [of "[(''_id'', JStr ''1699999999500_xyz''), (''name'', JStr ''zzz'')]"
        "''1699999999500_xyz''"]
    by (simp add: example_name example_getDoc)
  have 2: "getOne example_driver example_stored [(''_id'', JStr ''1699999999999_nnn'')]
       = (Inr None, example_stored)"
    using t [of "[(''_id'', JStr ''1699999999999_nnn'')]" "''1699999999999_nnn''"]
    by (simp add: example_name getDoc_def example_stored_def example_docs_def)
  have 3: "getOne example_driver example_stored [(''_id'', JStr '''')] = (Inr None, example_stored)"
    using t [of "[(''_id'', JStr '''')]" "''''"]
    by (simp add: example_name getDoc_def example_stored_def example_docs_def)
  have g: "get example_driver example_stored q
         = (Inr (matching q example_docs), example_stored)" for q
    by (simp add: get_connected example_connected example_bound example_stored_facts)
  have 4: "getOne example_driver example_stored [(''name'', JStr ''b'')]
       = (Inr (Some example_record2), example_stored)"
    using t [of "[(''name'', JStr ''b'')]"] by (simp add: g example_matching)
  have 5: "getOne example_driver example_stored [(''name'', JStr ''zzz'')]
       = (Inr None, example_stored)"
    using t [of "[(''name'', JStr ''zzz'')]"] by (simp add: g example_matching)
  from ok 1 2 3 4 5 show ?thesis
    by (simp add: example_connected example_bound)
qed

text \<open>
  C5. Two calls of \<^verbatim>\<open>set\<close> that read the same clock value and the same random number
  generate the same identifier: the second call returns the \<^verbatim>\<open>_id\<close> of the record
  the first one stored and overwrites that record, so that one record is left.
\<close>

theorem set_identifier_collision:
  "fst (set_op example_driver repeating_world [''name'' \<mapsto> JStr ''a'']) =
     Inr [''name'' \<mapsto> JStr ''a'', ''_id'' \<mapsto> JStr ''1700000000000_k3j9x2m1pq'',
          ''_createdAt'' \<mapsto> JStr ''2023-11-14T22:13:20.000Z'',
          ''_updatedAt'' \<mapsto> JStr ''2023-11-14T22:13:20.000Z'']
   \<and> fst (set_op example_driver
          (snd (set_op example_driver repeating_world [''name'' \<mapsto> JStr ''a'']))
          [''name'' \<mapsto> JStr ''b'']) =
     Inr [''name'' \<mapsto> JStr ''b'', ''_id'' \<mapsto> JStr ''1700000000000_k3j9x2m1pq'',
          ''_createdAt'' \<mapsto> JStr ''2023-11-14T22:13:20.000Z'',
          ''_updatedAt'' \<mapsto> JStr ''2023-11-14T22:13:20.000Z'']
   \<and> database (snd (set_op example_driver
          (snd (set_op example_driver repeating_world [''name'' \<mapsto> JStr ''a'']))
          [''name'' \<mapsto> JStr ''b''])) ''users'' =
     [(''1700000000000_k3j9x2m1pq'',
       [''name'' \<mapsto> JStr ''b'', ''_id'' \<mapsto> JStr ''1700000000000_k3j9x2m1pq'',
        ''_createdAt'' \<mapsto> JStr ''2023-11-14T22:13:20.000Z'',
        ''_updatedAt'' \<mapsto> JStr ''2023-11-14T22:13:20.000Z''])]"
  by (simp add: set_op_connected example_connected example_name repeating_world_def
      Let_def setDoc_def example_renderings numeral_3_eq_3 numeral_2_eq_2)

text \<open>
  C6. On a connected adapter, reading back by \<^verbatim>\<open>getOne\<close> the \<^verbatim>\<open>_id\<close> of the
  record that \<^verbatim>\<open>set(r)\<close> returned gives that same record: the store has changed or
  dropped none of its fields, and the record holds every field of \<^verbatim>\<open>r\<close> that is not
  reserved.
\<close>

theorem set_getOne_roundtrip:
  assumes "connected a"
  shows "\<exists>record ident w'.
           set_op a w r = (Inr record, w')
         \<and> record ''_id'' = Some ident
         \<and> getOne a w' [(''_id'', ident)] = (Inr (Some record), w')
         \<and> (\<forall>k v. r k = Some v \<and> k \<notin> reserved \<longrightarrow> record k = Some v)"
  using assms
  by (simp add: set_op_connected Let_def getOne_by_id getDoc_setDoc reserved_def)

theorem set_getOne_roundtrip_witness:
  "connected example_driver
   \<and> fst (getOne example_driver
            (snd (set_op example_driver example_stored [''name'' \<mapsto> JStr ''c'']))
            [(''_id'', JStr ''1700000000000_k3j9x2m1pq'')])
       = map_sum id Some (fst (set_op example_driver example_stored [''name'' \<mapsto> JStr ''c'']))
   \<and> fst (set_op example_driver example_stored [''name'' \<mapsto> JStr ''c''])
       = Inr [''name'' \<mapsto> JStr ''c'', ''_id'' \<mapsto> JStr ''1700000000000_k3j9x2m1pq'',
              ''_createdAt'' \<mapsto> JStr ''2023-11-14T22:13:20.001Z'',
              ''_updatedAt'' \<mapsto> JStr ''2023-11-14T22:13:20.002Z'']"
proof -
  have s: "fst (set_op example_driver example_stored [''name'' \<mapsto> JStr ''c''])
       = Inr [''name'' \<mapsto> JStr ''c'', ''_id'' \<mapsto> JStr ''1700000000000_k3j9x2m1pq'',
              ''_createdAt'' \<mapsto> JStr ''2023-11-14T22:13:20.001Z'',
              ''_updatedAt'' \<mapsto> JStr ''2023-11-14T22:13:20.002Z'']"
    by (simp add: set_op_connected example_connected Let_def example_stored_facts
        example_clock example_renderings)
  from set_getOne_roundtrip [OF example_connected, of example_stored "[''name'' \<mapsto> JStr ''c'']"]
  obtain result ident w' where
    "set_op example_driver example_stored [''name'' \<mapsto> JStr ''c''] = (Inr result, w')"
    "result ''_id'' = Some ident"
    "getOne example_driver w' [(''_id'', ident)] = (Inr (Some result), w')"
    by (elim exE conjE)
  with s show ?thesis
    by (auto simp: example_connected)
qed

text \<open>
  C7. \<^verbatim>\<open>clear()\<close> is to delete every record of the collection, whatever the
  collection holds, so that \<^verbatim>\<open>count({})\<close> returns 0 afterwards. The code deletes the
  documents named by the \<^verbatim>\<open>_id\<close> fields of the records it reads, not the documents
  it has read: a document stored under \<open>a\<close> whose \<^verbatim>\<open>_id\<close> field is \<open>zz\<close> survives
  \<^verbatim>\<open>clear()\<close>, which returns normally, and \<^verbatim>\<open>count({})\<close> then returns 1; on a
  document without \<^verbatim>\<open>_id\<close> the call fails and deletes nothing.
\<close>

theorem clear_leaves_document:
  "fst (count example_driver foreign_world []) = Inr 2
   \<and> fst (clear example_driver foreign_world) = Inr ()
   \<and> database (snd (clear example_driver foreign_world)) ''users''
       = [(''a'', [''_id'' \<mapsto> JStr ''zz''])]
   \<and> fst (count example_driver (snd (clear example_driver foreign_world)) []) = Inr 1
   \<and> clear example_driver unkeyed_world = (Inl BackendFailure, unkeyed_world)
   \<and> fst (count example_driver unkeyed_world []) = Inr 1"
proof -
  have c: "clear example_driver foreign_world =
     (Inr (), foreign_world\<lparr>database := (\<lambda>_. [])(''users'' := [(''a'', [''_id'' \<mapsto> JStr ''zz''])])\<rparr>)"
    by (simp add: clear_def delete_def connected_ensure get_connected example_connected
        example_bound example_name matching_def getDocs_def foreign_world_def doc_def
        deleteDoc_def)
  have u: "clear example_driver unkeyed_world = (Inl BackendFailure, unkeyed_world)"
    by (simp add: clear_def delete_def connected_ensure get_connected example_connected
        example_bound example_name matching_def getDocs_def unkeyed_world_def doc_def)
  show ?thesis
    unfolding c u
    by (simp add: count_def connected_ensure get_connected example_connected example_bound
        example_name matching_def getDocs_def foreign_world_def unkeyed_world_def)
qed

text \<open>
  C8, as stated, fails when the system clock is set back: a record written at
  22:13:20 and updated after the clock has gone back to 22:13:19 gets an
  \<^verbatim>\<open>_updatedAt\<close> earlier than the one it had.
\<close>

theorem updatedAt_goes_back_counterexample:
  "fst (set_op example_driver stepping_back_world [''name'' \<mapsto> JStr ''a'']) =
     Inr [''name'' \<mapsto> JStr ''a'', ''_id'' \<mapsto> JStr ''1700000000000_k3j9x2m1pq'',
          ''_createdAt'' \<mapsto> JStr ''2023-11-14T22:13:20.000Z'',
          ''_updatedAt'' \<mapsto> JStr ''2023-11-14T22:13:20.000Z'']
   \<and> fst (update example_driver
          (snd (set_op example_driver stepping_back_world [''name'' \<mapsto> JStr ''a'']))
          [(''_id'', JStr ''1700000000000_k3j9x2m1pq'')] [''name'' \<mapsto> JStr ''b'']) = Inr 1
   \<and> getDoc (''users'', ''1700000000000_k3j9x2m1pq'')
        (database (snd (update example_driver
          (snd (set_op example_driver stepping_back_world [''name'' \<mapsto> JStr ''a'']))
          [(''_id'', JStr ''1700000000000_k3j9x2m1pq'')] [''name'' \<mapsto> JStr ''b''])))
       = Some [''name'' \<mapsto> JStr ''b'', ''_id'' \<mapsto> JStr ''1700000000000_k3j9x2m1pq'',
               ''_createdAt'' \<mapsto> JStr ''2023-11-14T22:13:20.000Z'',
               ''_updatedAt'' \<mapsto> JStr ''2023-11-14T22:13:19.000Z'']
   \<and> \<not> ''2023-11-14T22:13:19.000Z'' \<ge> ''2023-11-14T22:13:20.000Z''"
proof -
  have "\<not> ''2023-11-14T22:13:19.000Z'' \<ge> ''2023-11-14T22:13:20.000Z''"
    by simp
  then show ?thesis
    unfolding stepping_back_update
    by (simp add: stepping_back_set getDoc_def stepping_back_record)
qed

text \<open>
  C8, amended. When \<^verbatim>\<open>update(q, d)\<close> touches a record, the record's new
  \<^verbatim>\<open>_updatedAt\<close> is the rendering of a clock reading taken during the call, whatever
  \<^verbatim>\<open>d\<close> holds. So it is not earlier than the record's previous timestamp \<open>t1\<close>
  whenever the clock readings of the call are not earlier than \<open>t1\<close>.
\<close>

theorem update_stamps_clock_reading:
  assumes "connected a" "collection_bound a" "store_ok (database w (collectionName a))"
    and "fst (get a w q) = Inr records"
    and "getDoc (collectionName a, k) (database w) = Some old" "old \<in> set records"
    and "old ''_updatedAt'' = Some (JStr (toISOString t1))"
    and "\<forall>i<length records. t1 \<le> clock w !! i"
  shows "\<exists>w' new i.
      update a w q d = (Inr (length records), w')
    \<and> getDoc (collectionName a, k) (database w') = Some new
    \<and> i < length records
    \<and> new ''_updatedAt'' = Some (JStr (toISOString (clock w !! i)))
    \<and> t1 \<le> clock w !! i"
proof -
  let ?rs = "matching q (database w (collectionName a))"
  from assms(1,2,4) have r: "records = ?rs"
    by (simp add: get_connected)
  from update_connected [OF assms(1-3), of q d] obtain w' where
    u: "update a w q d = (Inr (length ?rs), w')" and
    upd: "\<forall>k old. map_of (database w (collectionName a)) k = Some old \<and> old \<in> set ?rs \<longrightarrow>
            (\<exists>i<length ?rs. map_of (database w' (collectionName a)) k
                  = Some (old ++ updateData d (toISOString (clock w !! i))))"
    by (elim exE conjE)
  from upd assms(5,6) r obtain i where i: "i < length records" and
    n: "getDoc (collectionName a, k) (database w')
          = Some (old ++ updateData d (toISOString (clock w !! i)))"
    unfolding getDoc_def fst_conv snd_conv by blast
  from i assms(8) have "t1 \<le> clock w !! i" by simp
  with u n i r show ?thesis
    by (auto simp: updateData_fields)
qed

theorem update_stamps_clock_reading_witness:
  "connected example_driver \<and> collection_bound example_driver
   \<and> store_ok (database example_stored (collectionName example_driver))
   \<and> fst (get example_driver example_stored [(''name'', JStr ''b'')]) = Inr [example_record2]
   \<and> getDoc (collectionName example_driver, ''1699999999500_xyz'') (database example_stored)
       = Some example_record2
   \<and> example_record2 ''_updatedAt'' = Some (JStr (toISOString 1699999999500))
   \<and> 1699999999500 \<le> clock example_stored !! 0
   \<and> fst (update example_driver example_stored [(''name'', JStr ''b'')]
            [''_updatedAt'' \<mapsto> JStr ''1999-01-01T00:00:00.000Z'']) = Inr 1
   \<and> Option.bind
        (getDoc (''users'', ''1699999999500_xyz'')
          (database (snd (update example_driver example_stored [(''name'', JStr ''b'')]
            [''_updatedAt'' \<mapsto> JStr ''1999-01-01T00:00:00.000Z'']))))
        (\<lambda>new. new ''_updatedAt'') = Some (JStr (toISOString 1700000000000))"
proof -
  let ?d = "[''_updatedAt'' \<mapsto> JStr ''1999-01-01T00:00:00.000Z'']"
  have ok: "store_ok (database example_stored (collectionName example_driver))"
    by (simp add: example_stored_facts example_store_ok)
  have g: "fst (get example_driver example_stored [(''name'', JStr ''b'')]) = Inr [example_record2]"
    by (simp add: get_connected example_connected example_bound example_stored_facts
        example_matching)
  have l: "getDoc (collectionName example_driver, ''1699999999500_xyz'') (database example_stored)
        = Some example_record2"
    by (simp add: example_name example_getDoc)
  have m: "example_record2 \<in> set [example_record2]" by simp
  have s: "example_record2 ''_updatedAt'' = Some (JStr (toISOString 1699999999500))"
    by (simp add: example_record2_def example_renderings)
  have c: "\<forall>i<length [example_record2]. 1699999999500 \<le> clock example_stored !! i"
    by (simp add: example_stored_facts example_clock)
  from update_stamps_clock_reading [OF example_connected example_bound ok g l m s c, of ?d]
  obtain w' new i where
    u: "update example_driver example_stored [(''name'', JStr ''b'')] ?d
          = (Inr (length [example_record2]), w')" and
    n: "getDoc (collectionName example_driver, ''1699999999500_xyz'') (database w') = Some new" and
    i: "i < length [example_record2]" and
    t: "new ''_updatedAt'' = Some (JStr (toISOString (clock example_stored !! i)))"
    by (elim exE conjE)
  from i have "i = 0" by simp
  with t have "new ''_updatedAt'' = Some (JStr (toISOString 1700000000000))"
    by (simp add: example_stored_facts example_clock)
  with ok g l s c u n show ?thesis
    by (simp add: example_connected example_bound example_name)
qed

text \<open>
  C9. \<^verbatim>\<open>set(data)\<close> ignores the values the caller gives to \<^verbatim>\<open>_id\<close>,
  \<^verbatim>\<open>_createdAt\<close> and \<^verbatim>\<open>_updatedAt\<close>: the call does what it does on the data
  without these keys, and the record returned and stored carries the generated
  identifier and the timestamps just read.
\<close>

theorem set_overrides_reserved:
  assumes "connected a"
  shows "set_op a w d = set_op a w (\<lambda>k. if k \<in> reserved then None else d k)
       \<and> (\<exists>record w'.
            set_op a w d = (Inr record, w')
          \<and> record ''_id'' = Some (JStr (fst (generateId w)))
          \<and> record ''_createdAt'' = Some (JStr (toISOString (clock w !! 1)))
          \<and> record ''_updatedAt'' = Some (JStr (toISOString (clock w !! 2)))
          \<and> getDoc (collectionName a, fst (generateId w)) (database w') = Some record)"
proof -
  have "d(''_id'' \<mapsto> x, ''_createdAt'' \<mapsto> y, ''_updatedAt'' \<mapsto> z) =
        (\<lambda>k. if k \<in> reserved then None else d k)
          (''_id'' \<mapsto> x, ''_createdAt'' \<mapsto> y, ''_updatedAt'' \<mapsto> z)" for x y z
    by (rule ext) (simp add: reserved_def)
  then show ?thesis
    using assms
    by (simp add: set_op_connected Let_def generateId_eq getDoc_setDoc)
qed

theorem set_overrides_reserved_witness:
  "connected example_driver
   \<and> fst (set_op example_driver example_world
       [''name'' \<mapsto> JStr ''a'', ''_id'' \<mapsto> JStr ''mine'',
        ''_createdAt'' \<mapsto> JStr ''1999-01-01T00:00:00.000Z'', ''_updatedAt'' \<mapsto> JNum 7])
     = fst (set_op example_driver example_world [''name'' \<mapsto> JStr ''a''])
   \<and> fst (set_op example_driver example_world [''name'' \<mapsto> JStr ''a''])
     = Inr [''name'' \<mapsto> JStr ''a'', ''_id'' \<mapsto> JStr ''1700000000000_k3j9x2m1pq'',
              ''_createdAt'' \<mapsto> JStr ''2023-11-14T22:13:20.001Z'',
              ''_updatedAt'' \<mapsto> JStr ''2023-11-14T22:13:20.002Z'']"
proof -
  let ?d = "[''name'' \<mapsto> JStr ''a'', ''_id'' \<mapsto> JStr ''mine'',
        ''_createdAt'' \<mapsto> JStr ''1999-01-01T00:00:00.000Z'', ''_updatedAt'' \<mapsto> JNum 7]"
  have e: "(\<lambda>k. if k \<in> reserved then None else ?d k)
         = (\<lambda>k. if k \<in> reserved then None else [''name'' \<mapsto> JStr ''a''] k)"
    by (rule ext) (simp add: reserved_def)
  have "set_op example_driver example_world ?d
      = set_op example_driver example_world [''name'' \<mapsto> JStr ''a'']"
    using set_overrides_reserved [OF example_connected, of example_world ?d]
      set_overrides_reserved [OF example_connected, of example_world "[''name'' \<mapsto> JStr ''a'']"]
    unfolding e by simp
  moreover have "fst (set_op example_driver example_world [''name'' \<mapsto> JStr ''a''])
     = Inr [''name'' \<mapsto> JStr ''a'', ''_id'' \<mapsto> JStr ''1700000000000_k3j9x2m1pq'',
              ''_createdAt'' \<mapsto> JStr ''2023-11-14T22:13:20.001Z'',
              ''_updatedAt'' \<mapsto> JStr ''2023-11-14T22:13:20.002Z'']"
    by (simp add: set_op_connected example_connected Let_def example_clock example_renderings)
  ultimately show ?thesis
    by (simp add: example_connected)
qed

text \<open>
  C10. \<^verbatim>\<open>update(q, d)\<close> removes only \<^verbatim>\<open>_id\<close> from the caller's data: in every record
  it matches, each other field of \<^verbatim>\<open>d\<close> except \<^verbatim>\<open>_updatedAt\<close> replaces the stored
  value. In particular a \<^verbatim>\<open>_createdAt\<close> in \<^verbatim>\<open>d\<close> overwrites the record's creation
  timestamp, while \<^verbatim>\<open>_id\<close> keeps its stored value.
\<close>

theorem update_overwrites_createdAt:
  assumes "connected a" "collection_bound a" "store_ok (database w (collectionName a))"
    and "fst (get a w q) = Inr records"
    and "getDoc (collectionName a, k) (database w) = Some old" "old \<in> set records"
  shows "\<exists>w' new.
      update a w q d = (Inr (length records), w')
    \<and> getDoc (collectionName a, k) (database w') = Some new
    \<and> new ''_id'' = old ''_id''
    \<and> (\<forall>f v. d f = Some v \<and> f \<noteq> ''_id'' \<and> f \<noteq> ''_updatedAt'' \<longrightarrow> new f = Some v)
    \<and> (\<forall>v. d ''_createdAt'' = Some v \<longrightarrow> new ''_createdAt'' = Some v)"
proof -
  let ?rs = "matching q (database w (collectionName a))"
  from assms(1,2,4) have r: "records = ?rs"
    by (simp add: get_connected)
  from update_connected [OF assms(1-3), of q d] obtain w' where
    u: "update a w q d = (Inr (length ?rs), w')" and
    upd: "\<forall>k old. map_of (database w (collectionName a)) k = Some old \<and> old \<in> set ?rs \<longrightarrow>
            (\<exists>i<length ?rs. map_of (database w' (collectionName a)) k
                  = Some (old ++ updateData d (toISOString (clock w !! i))))"
    by (elim exE conjE)
  from upd assms(5,6) r obtain i where
    n: "getDoc (collectionName a, k) (database w')
          = Some (old ++ updateData d (toISOString (clock w !! i)))"
    unfolding getDoc_def fst_conv snd_conv by blast
  have "(old ++ updateData d s) ''_createdAt'' = Some v" if "d ''_createdAt'' = Some v" for s v
    using that by (simp add: updateData_fields)
  with u n r show ?thesis
    by (simp add: updateData_fields)
qed

theorem update_overwrites_createdAt_witness:
  "connected example_driver \<and> collection_bound example_driver
   \<and> store_ok (database example_stored (collectionName example_driver))
   \<and> fst (get example_driver example_stored [(''name'', JStr ''b'')]) = Inr [example_record2]
   \<and> example_record2 ''_createdAt'' = Some (JStr ''2023-11-14T22:13:19.500Z'')
   \<and> Option.bind
        (getDoc (''users'', ''1699999999500_xyz'')
          (database (snd (update example_driver example_stored [(''name'', JStr ''b'')]
             [''_createdAt'' \<mapsto> JStr ''1999-01-01T00:00:00.000Z'', ''_id'' \<mapsto> JStr ''other'']))))
        (\<lambda>new. new ''_createdAt'') = Some (JStr ''1999-01-01T00:00:00.000Z'')
   \<and> Option.bind
        (getDoc (''users'', ''1699999999500_xyz'')
          (database (snd (update example_driver example_stored [(''name'', JStr ''b'')]
             [''_createdAt'' \<mapsto> JStr ''1999-01-01T00:00:00.000Z'', ''_id'' \<mapsto> JStr ''other'']))))
        (\<lambda>new. new ''_id'') = Some (JStr ''1699999999500_xyz'')"
proof -
  let ?d = "[''_createdAt'' \<mapsto> JStr ''1999-01-01T00:00:00.000Z'', ''_id'' \<mapsto> JStr ''other'']"
  have ok: "store_ok (database example_stored (collectionName example_driver))"
    by (simp add: example_stored_facts example_store_ok)
  have g: "fst (get example_driver example_stored [(''name'', JStr ''b'')]) = Inr [example_record2]"
    by (simp add: get_connected example_connected example_bound example_stored_facts
        example_matching)
  have l: "getDoc (collectionName example_driver, ''1699999999500_xyz'') (database example_stored)
        = Some example_record2"
    by (simp add: example_name example_getDoc)
  have m: "example_record2 \<in> set [example_record2]" by simp
  from update_overwrites_createdAt [OF example_connected example_bound ok g l m, of ?d]
  obtain w' new where
    "update example_driver example_stored [(''name'', JStr ''b'')] ?d
       = (Inr (length [example_record2]), w')"
    "getDoc (collectionName example_driver, ''1699999999500_xyz'') (database w') = Some new"
    "new ''_id'' = example_record2 ''_id''"
    "\<forall>v. ?d ''_createdAt'' = Some v \<longrightarrow> new ''_createdAt'' = Some v"
    by (elim exE conjE)
  with ok g show ?thesis
    by (simp add: example_connected example_bound example_name example_record2_def)
qed

end
